theory Spec2Isabelle
  imports Complex_Main "HOL-Library.AList"
begin

chapter \<open>pg-mem: statement execution, structural drops and jsonb ordering\<close>

text \<open>
  The development follows three source files: \<^verbatim>\<open>src/query.ts\<close> (class \<^verbatim>\<open>Query\<close>),
  \<^verbatim>\<open>src/execution/schema-amends/drop-index.ts\<close> (class \<^verbatim>\<open>DropIndex\<close>) and the file that
  holds the order-by test suite together with class \<^verbatim>\<open>DropSequence\<close>.
  Collaborators whose code is not among these files (the type system's comparators, the
  transaction class, the selection operators) are modelled from the specification; each such
  definition says so.
\<close>

section \<open>Errors and values\<close>

text \<open>
  The exception classes thrown by the sources. \<open>NotSupported\<close> carries its optional message;
  \<open>Error\<close> is the plain JavaScript \<^verbatim>\<open>Error\<close>; \<open>TypeError\<close> is what the runtime raises when
  a property of \<^verbatim>\<open>undefined\<close> is read or \<^verbatim>\<open>null\<close> is iterated; \<open>InternalError\<close> is the fatal
  invariant violation of the specification's section 7.
\<close>

datatype error =
    NotSupported "string option"
  | TableNotFound string
  | ObjectNotFound string
  | QueryError string
  | CastError string
  | Error string
  | TypeError
  | InternalError string

datatype json =
    JNull
  | JBool bool
  | JNum rat
  | JStr string
  | JArr "json list"
  | JObj "(string \<times> json) list"

text \<open>A cell of a row: SQL \<open>Null\<close> is distinct from the json null value \<open>JsonbV JNull\<close>.\<close>

datatype "value" =
    Null
  | BoolV bool
  | IntV int
  | TextV string
  | JsonbV json

section \<open>The jsonb comparator\<close>

datatype ordering = LESS | EQUAL | GREATER

text \<open>
  Modelled from the spec: the three-way comparator and the equality of the jsonb type (the
  type system is not among the sources; only its test table, \<^verbatim>\<open>orders jsonb values\<close>, is).
  The model follows section 4.1 (rank first, then structure; objects by number of keys, then
  by the values of the keys present in both) and, as section 4.1 demands, reproduces the table
  of section 8, which is the test table. Where the two disagree the table decides:
  the tests \<^verbatim>\<open>[] < 1\<close>, \<^verbatim>\<open>[] < null\<close> and \<^verbatim>\<open>[] >= null\<close> (false) put arrays below the json null
  value and below numbers, so arrays take the lowest rank; the test \<^verbatim>\<open>[2,2] > [1,2,3]\<close> (false)
  orders arrays of different lengths by length before any element is compared.
\<close>

fun typeRank :: "json \<Rightarrow> nat" where
  "typeRank (JArr _) = 0"
| "typeRank JNull = 1"
| "typeRank (JBool _) = 2"
| "typeRank (JNum _) = 3"
| "typeRank (JStr _) = 4"
| "typeRank (JObj _) = 5"

definition compareNat :: "nat \<Rightarrow> nat \<Rightarrow> ordering" where
  "compareNat m n = (if m < n then LESS else if n < m then GREATER else EQUAL)"

definition compareBool :: "bool \<Rightarrow> bool \<Rightarrow> ordering" where
  "compareBool a b = (if a = b then EQUAL else if b then LESS else GREATER)"

definition compareNum :: "rat \<Rightarrow> rat \<Rightarrow> ordering" where
  "compareNum a b = (if a < b then LESS else if b < a then GREATER else EQUAL)"

definition compareInt :: "int \<Rightarrow> int \<Rightarrow> ordering" where
  "compareInt a b = (if a < b then LESS else if b < a then GREATER else EQUAL)"

text \<open>Strings compare code unit by code unit; a proper prefix is smaller.\<close>

fun compareStr :: "string \<Rightarrow> string \<Rightarrow> ordering" where
  "compareStr [] [] = EQUAL"
| "compareStr [] (_ # _) = LESS"
| "compareStr (_ # _) [] = GREATER"
| "compareStr (c # cs) (d # ds) =
     (if (of_char c :: nat) < of_char d then LESS
      else if (of_char d :: nat) < of_char c then GREATER
      else compareStr cs ds)"

function (sequential) jsonCompare :: "json \<Rightarrow> json \<Rightarrow> ordering"
  and compareElems :: "json list \<Rightarrow> json list \<Rightarrow> ordering"
  and compareMembers :: "(string \<times> json) list \<Rightarrow> (string \<times> json) list \<Rightarrow> ordering"
  and compareMember :: "string \<Rightarrow> json \<Rightarrow> (string \<times> json) list \<Rightarrow> ordering"
where
  "jsonCompare (JBool a) (JBool b) = compareBool a b"
| "jsonCompare (JNum a) (JNum b) = compareNum a b"
| "jsonCompare (JStr a) (JStr b) = compareStr a b"
| "jsonCompare (JArr xs) (JArr ys) =
     (case compareNat (length xs) (length ys) of
        EQUAL \<Rightarrow> compareElems xs ys
      | r \<Rightarrow> r)"
| "jsonCompare (JObj ms) (JObj ns) =
     (case compareNat (length ms) (length ns) of
        EQUAL \<Rightarrow> compareMembers ms ns
      | r \<Rightarrow> r)"
| "jsonCompare a b = compareNat (typeRank a) (typeRank b)"
| "compareElems (x # xs) (y # ys) =
     (case jsonCompare x y of EQUAL \<Rightarrow> compareElems xs ys | r \<Rightarrow> r)"
| "compareElems _ _ = EQUAL"
| "compareMembers [] ns = EQUAL"
| "compareMembers ((k, v) # ms) ns =
     (case compareMember k v ns of EQUAL \<Rightarrow> compareMembers ms ns | r \<Rightarrow> r)"
| "compareMember k v [] = EQUAL"
| "compareMember k v ((k', w) # ns) =
     (if k = k' then jsonCompare v w else compareMember k v ns)"
  by pat_completeness auto
termination
  by (relation "measure (\<lambda>x. case x of
        Inl (Inl (a, b)) \<Rightarrow> size a + size b
      | Inl (Inr (xs, ys)) \<Rightarrow> size_list size xs + size_list size ys
      | Inr (Inl (ms, ns)) \<Rightarrow>
          size_list (size_prod (\<lambda>_. 0) size) ms + size_list (size_prod (\<lambda>_. 0) size) ns
      | Inr (Inr (k, v, ns)) \<Rightarrow> size v + size_list (size_prod (\<lambda>_. 0) size) ns)") auto

text \<open>
  Modelled from the spec: equality "requires identical structure and values, not just
  ordering-equivalence". Two objects are equal when they have the same number of members and
  every member of the first has an equal value under the same key in the second.
\<close>

function (sequential) jsonEquals :: "json \<Rightarrow> json \<Rightarrow> bool"
  and equalElems :: "json list \<Rightarrow> json list \<Rightarrow> bool"
  and equalMembers :: "(string \<times> json) list \<Rightarrow> (string \<times> json) list \<Rightarrow> bool"
  and equalMember :: "string \<Rightarrow> json \<Rightarrow> (string \<times> json) list \<Rightarrow> bool"
where
  "jsonEquals JNull JNull = True"
| "jsonEquals (JBool a) (JBool b) = (a = b)"
| "jsonEquals (JNum a) (JNum b) = (a = b)"
| "jsonEquals (JStr a) (JStr b) = (a = b)"
| "jsonEquals (JArr xs) (JArr ys) = (if length xs = length ys then equalElems xs ys else False)"
| "jsonEquals (JObj ms) (JObj ns) = (if length ms = length ns then equalMembers ms ns else False)"
| "jsonEquals a b = False"
| "equalElems (x # xs) (y # ys) = (if jsonEquals x y then equalElems xs ys else False)"
| "equalElems _ _ = True"
| "equalMembers [] ns = True"
| "equalMembers ((k, v) # ms) ns = (if equalMember k v ns then equalMembers ms ns else False)"
| "equalMember k v [] = False"
| "equalMember k v ((k', w) # ns) =
     (if k = k' then jsonEquals v w else equalMember k v ns)"
  by pat_completeness auto
termination
  by (relation "measure (\<lambda>x. case x of
        Inl (Inl (a, b)) \<Rightarrow> size a + size b
      | Inl (Inr (xs, ys)) \<Rightarrow> size_list size xs + size_list size ys
      | Inr (Inl (ms, ns)) \<Rightarrow>
          size_list (size_prod (\<lambda>_. 0) size) ms + size_list (size_prod (\<lambda>_. 0) size) ns
      | Inr (Inr (k, v, ns)) \<Rightarrow> size v + size_list (size_prod (\<lambda>_. 0) size) ns)") auto

section \<open>Comparison operators\<close>

datatype cmpop = OpEq | OpLt | OpLe | OpGt | OpGe

text \<open>
  Modelled from the spec: the operators \<^verbatim>\<open>= < <= > >=\<close> on two jsonb values, read off the
  comparator (\<^verbatim>\<open>>=\<close> is "not LESS", \<^verbatim>\<open><=\<close> is "not GREATER") and the equality.
\<close>

fun jsonbOp :: "cmpop \<Rightarrow> json \<Rightarrow> json \<Rightarrow> bool" where
  "jsonbOp OpEq a b = jsonEquals a b"
| "jsonbOp OpLt a b = (jsonCompare a b = LESS)"
| "jsonbOp OpLe a b = (jsonCompare a b \<noteq> GREATER)"
| "jsonbOp OpGt a b = (jsonCompare a b = GREATER)"
| "jsonbOp OpGe a b = (jsonCompare a b \<noteq> LESS)"

fun decide :: "cmpop \<Rightarrow> ordering \<Rightarrow> bool" where
  "decide OpEq r = (r = EQUAL)"
| "decide OpLt r = (r = LESS)"
| "decide OpLe r = (r \<noteq> GREATER)"
| "decide OpGt r = (r = GREATER)"
| "decide OpGe r = (r \<noteq> LESS)"

text \<open>
  Modelled from the spec: a binary comparison of two SQL values (section 4.1, null
  semantics). A SQL NULL on either side gives UNKNOWN, surfaced as the value \<open>Null\<close>,
  whatever the other operand is; two values of one type are compared with that type's
  comparator; values of different types have no conversion path.
\<close>

fun evalComparison :: "cmpop \<Rightarrow> value \<Rightarrow> value \<Rightarrow> error + value" where
  "evalComparison ope Null b = Inr Null"
| "evalComparison ope a Null = Inr Null"
| "evalComparison ope (JsonbV a) (JsonbV b) = Inr (BoolV (jsonbOp ope a b))"
| "evalComparison ope (IntV a) (IntV b) = Inr (BoolV (decide ope (compareInt a b)))"
| "evalComparison ope (TextV a) (TextV b) = Inr (BoolV (decide ope (compareStr a b)))"
| "evalComparison ope (BoolV a) (BoolV b) = Inr (BoolV (decide ope (compareBool a b)))"
| "evalComparison ope a b = Inl (CastError ''cannot compare values of different types'')"

section \<open>The parsed statements (query.ts)\<close>

text \<open>
  \<^verbatim>\<open>Query._query\<close> hands the query text to the parser of \<^verbatim>\<open>node-sql-parser\<close> and works on
  the statements it returns. The parser is an external library: the model starts from the
  parsed statements. Expressions are opaque to \<^verbatim>\<open>query.ts\<close> (it passes them on to
  \<^verbatim>\<open>buildValue\<close>), so their type is a parameter \<open>'e\<close>. A field that may be \<^verbatim>\<open>undefined\<close> or
  \<^verbatim>\<open>null\<close> is an option. \<open>ct_table\<close> holds the \<^verbatim>\<open>table\<close> of each entry of a \<^verbatim>\<open>create table\<close>'s
  \<^verbatim>\<open>p.table\<close>, \<open>ci_table\<close> is \<^verbatim>\<open>p.table.table\<close> of a \<^verbatim>\<open>create index\<close>.
\<close>

record 'e from_item =
  from_table :: "string option"
  from_as :: "string option"
  from_join :: "string option"
  from_on :: "'e option"

record 'e select_column =
  sc_expr :: 'e
  sc_as :: "string option"

datatype 'e select_columns = Star | Columns "'e select_column list"

record 'e order_item =
  ob_expr :: 'e
  ob_type :: "string option"
  ob_nulls :: "string option"

record 'e select_stmt =
  sel_type :: string
  sel_from :: "'e from_item list option"
  sel_where :: "'e option"
  sel_columns :: "'e select_columns"
  sel_orderby :: "'e order_item list option"

record table_ref =
  ref_table :: "string option"

record 'e values_item =
  val_type :: string
  val_value :: "'e list"

record 'e insert_stmt =
  ins_type :: string
  ins_table :: "table_ref list option"
  ins_columns :: "string list option"
  ins_values :: "'e values_item list"

record 'e update_stmt =
  upd_table :: "table_ref list option"
  upd_set :: "(string \<times> 'e) list"
  upd_where :: "'e option"

record column_ref =
  cr_type :: string
  cr_column :: string

record type_definition =
  def_dataType :: string
  def_length :: "nat option"
  def_suffix :: "string list option"

record create_definition =
  cd_resource :: string
  cd_column :: column_ref
  cd_unique_or_primary :: "string option"
  cd_definition :: type_definition

record create_table_stmt =
  ct_table :: "string list"
  ct_create_definitions :: "create_definition list"

record 'e index_column =
  ixc_column :: 'e
  ixc_nulls :: "string option"
  ixc_order :: "string option"

record 'e create_index_stmt =
  ci_on_kw :: "string option"
  ci_with_before_where :: bool
  ci_index :: string
  ci_table :: string
  ci_index_columns :: "'e index_column list"

text \<open>
  The statement kinds \<^verbatim>\<open>_query\<close> switches on: \<^verbatim>\<open>p.type\<close>, and \<^verbatim>\<open>p.keyword\<close> for a
  \<^verbatim>\<open>create\<close>. \<open>CreateOther k\<close> is a \<^verbatim>\<open>create\<close> with another keyword \<open>k\<close>, \<open>OtherStatement ty\<close>
  a statement of another type \<open>ty\<close>.
\<close>

datatype 'e statement =
    Insert "'e insert_stmt"
  | Update "'e update_stmt"
  | Select "'e select_stmt"
  | CreateTable create_table_stmt
  | CreateIndex "'e create_index_stmt"
  | CreateOther string
  | OtherStatement string

section \<open>Tables and the database\<close>

type_synonym row = "(string \<times> value) list"

datatype sqltype = TText "nat option" | TInt | TFloat | TTimestamp | TDate | TJson | TJsonb

record schema_field =
  fld_id :: string
  fld_type :: sqltype
  fld_primary :: bool
  fld_unique :: bool

record 'e index_col_def =
  icd_value :: 'e
  icd_nullsLast :: bool
  icd_desc :: bool

record 'e index_def =
  ixd_columns :: "'e index_col_def list"
  ixd_indexName :: string

text \<open>
  Modelled from the spec: a table (section 3) owns a typed column schema, its indexes and a
  row store; the class is not among the sources. A stored row is the object
  \<^verbatim>\<open>executeInsert\<close> builds: column name to value, in the order the keys were first assigned.
\<close>

record 'e table =
  tbl_name :: string
  tbl_fields :: "schema_field list"
  tbl_rows :: "row list"
  tbl_indexes :: "'e index_def list"

type_synonym 'e db = "string \<rightharpoonup> 'e table"

text \<open>
  Modelled from the spec: \<^verbatim>\<open>getTable(name) -> Table\<close> of the schema registry (section 6);
  a missing table is a \<open>TableNotFound\<close> (section 7).
\<close>

definition getTable :: "'e db \<Rightarrow> string \<Rightarrow> error + 'e table" where
  "getTable db name = (case db name of None \<Rightarrow> Inl (TableNotFound name) | Some t \<Rightarrow> Inr t)"

text \<open>
  Modelled from the spec: \<^verbatim>\<open>declareTable(schema)\<close> registers an empty table under its name.
\<close>

definition declareTable :: "'e db \<Rightarrow> string \<Rightarrow> schema_field list \<Rightarrow> 'e db" where
  "declareTable db name flds =
     db(name \<mapsto> \<lparr>tbl_name = name, tbl_fields = flds, tbl_rows = [], tbl_indexes = []\<rparr>)"

text \<open>
  Modelled from the spec: \<^verbatim>\<open>Table.insert\<close> adds the row to the row store and
  \<^verbatim>\<open>Table.createIndex\<close> adds the index to the table's indexes. The uniqueness check of a
  unique index (section 3) is not part of this model.
\<close>

definition insert_row :: "'e table \<Rightarrow> row \<Rightarrow> 'e table" where
  "insert_row t r = t\<lparr>tbl_rows := tbl_rows t @ [r]\<rparr>"

definition createIndex :: "'e table \<Rightarrow> 'e index_def \<Rightarrow> 'e table" where
  "createIndex t ix = t\<lparr>tbl_indexes := tbl_indexes t @ [ix]\<rparr>"

record column =
  col_source :: string
  col_name :: string

text \<open>
  The collaborators of \<^verbatim>\<open>query.ts\<close> that work on expressions are not among the sources
  and are parameters of the model:
  \<^item> \<open>buildCell fields c e\<close> stands for lines 235 to 238 of \<^verbatim>\<open>executeInsert\<close>:
    \<^verbatim>\<open>buildValue(null, e)\<close>, \<^verbatim>\<open>t.selection.getColumn(c)\<close>, \<^verbatim>\<open>convert(col.type)\<close> and \<^verbatim>\<open>get(null)\<close>,
    any of which may throw;
  \<^item> \<open>buildValue fields e\<close> is \<^verbatim>\<open>buildValue(onTable.selection, e)\<close> of \<^verbatim>\<open>executeCreateIndex\<close>;
  \<^item> \<open>evalExpr cols tuple e\<close> is the value of the expression \<open>e\<close> on a tuple of a selection
    whose columns are \<open>cols\<close>, or the error its evaluation raises;
  \<^item> \<open>exprName e\<close> is the name of the result column of a selected expression without alias;
  \<^item> \<open>check p\<close> is \<^verbatim>\<open>p.check?.()\<close> of the statement wrapped by \<^verbatim>\<open>watchUse\<close>.
\<close>

record 'e deps =
  buildCell :: "schema_field list \<Rightarrow> string \<Rightarrow> 'e \<Rightarrow> error + value"
  buildValue :: "schema_field list \<Rightarrow> 'e \<Rightarrow> error + 'e"
  evalExpr :: "column list \<Rightarrow> value list \<Rightarrow> 'e \<Rightarrow> error + value"
  exprName :: "'e \<Rightarrow> string"
  check :: "'e statement \<Rightarrow> error option"

section \<open>Selections\<close>

text \<open>
  The selection tree \<^verbatim>\<open>executeSelect\<close> builds: a table's selection with the alias given to
  \<^verbatim>\<open>setAlias\<close>, \<^verbatim>\<open>new JoinSelection(db, restrictive, joined, on, innerJoin)\<close>, \<^verbatim>\<open>filter(where)\<close>
  and \<^verbatim>\<open>select(columns)\<close>.
\<close>

datatype 'e selection =
    TableSelection "'e table" "string option"
  | JoinSelection "'e selection" "'e selection" "'e option" bool
  | FilterSelection "'e selection" "'e option"
  | ProjectSelection "'e selection" "'e select_columns"

definition outName :: "'e deps \<Rightarrow> 'e select_column \<Rightarrow> string" where
  "outName d c = (case sc_as c of Some a \<Rightarrow> a | None \<Rightarrow> exprName d (sc_expr c))"

text \<open>
  Modelled from the spec: the ordered column schema of a selection (section 4.2), each column
  with the table or alias it comes from. A join lists the columns of its first operand, then
  those of its second; a projection has exactly the selected columns, in the order of the
  select list, named by the alias if present (section 6).
\<close>

fun columnsOf :: "'e deps \<Rightarrow> 'e selection \<Rightarrow> column list" where
  "columnsOf d (TableSelection t a) =
     map (\<lambda>f. \<lparr>col_source = (case a of None \<Rightarrow> tbl_name t | Some x \<Rightarrow> x), col_name = fld_id f\<rparr>)
       (tbl_fields t)"
| "columnsOf d (JoinSelection r j on inner) = columnsOf d r @ columnsOf d j"
| "columnsOf d (FilterSelection s w) = columnsOf d s"
| "columnsOf d (ProjectSelection s Star) = columnsOf d s"
| "columnsOf d (ProjectSelection s (Columns cs)) =
     map (\<lambda>c. \<lparr>col_source = [], col_name = outName d c\<rparr>) cs"

text \<open>Running a fallible step over a list: the first error ends the run.\<close>

fun traverse :: "('a \<Rightarrow> error + 'b) \<Rightarrow> 'a list \<Rightarrow> error + 'b list" where
  "traverse f [] = Inr []"
| "traverse f (x # xs) =
     (case f x of
        Inl e \<Rightarrow> Inl e
      | Inr y \<Rightarrow> (case traverse f xs of Inl e \<Rightarrow> Inl e | Inr ys \<Rightarrow> Inr (y # ys)))"

fun filterE :: "('a \<Rightarrow> error + bool) \<Rightarrow> 'a list \<Rightarrow> error + 'a list" where
  "filterE f [] = Inr []"
| "filterE f (x # xs) =
     (case f x of
        Inl e \<Rightarrow> Inl e
      | Inr b \<Rightarrow>
         (case filterE f xs of Inl e \<Rightarrow> Inl e | Inr ys \<Rightarrow> Inr (if b then x # ys else ys)))"

text \<open>
  Modelled from the spec: a predicate holds on a row when it evaluates to a true value; NULL
  and false do not count (section 4.2, Filter). An absent predicate holds on every row.
\<close>

definition holds :: "'e deps \<Rightarrow> column list \<Rightarrow> 'e option \<Rightarrow> value list \<Rightarrow> error + bool" where
  "holds d cols pred tuple =
     (case pred of
        None \<Rightarrow> Inr True
      | Some e \<Rightarrow>
         (case evalExpr d cols tuple e of Inl err \<Rightarrow> Inl err | Inr v \<Rightarrow> Inr (v = BoolV True)))"

text \<open>
  Modelled from the spec: the join of section 4.2, row by row. For each row of the first
  operand the rows of the second that satisfy the predicate are matched; without a match an
  inner join emits nothing and a left join emits the row once, with NULL in every column of
  the second operand.
\<close>

definition joinRow ::
  "'e deps \<Rightarrow> column list \<Rightarrow> nat \<Rightarrow> 'e option \<Rightarrow> bool \<Rightarrow> value list list \<Rightarrow> value list
    \<Rightarrow> error + value list list" where
  "joinRow d cols n on inner joined l =
     (case filterE (\<lambda>r. holds d cols on (l @ r)) joined of
        Inl e \<Rightarrow> Inl e
      | Inr ms \<Rightarrow>
         Inr (if ms = [] then (if inner then [] else [l @ replicate n Null])
              else map (\<lambda>r. l @ r) ms))"

text \<open>
  Modelled from the spec: \<^verbatim>\<open>enumerate()\<close> (section 4.2). A table is scanned in insertion
  order; a filter keeps the rows on which the predicate holds; a projection evaluates the
  selected expressions on each row. An error raised while an expression is evaluated ends
  the enumeration.
\<close>

fun enumerate :: "'e deps \<Rightarrow> 'e selection \<Rightarrow> error + value list list" where
  "enumerate d (TableSelection t a) =
     Inr (map (\<lambda>r. map (\<lambda>f. case map_of r (fld_id f) of None \<Rightarrow> Null | Some v \<Rightarrow> v)
                      (tbl_fields t))
            (tbl_rows t))"
| "enumerate d (JoinSelection r j on inner) =
     (case enumerate d r of
        Inl e \<Rightarrow> Inl e
      | Inr ls \<Rightarrow>
         (case enumerate d j of
            Inl e \<Rightarrow> Inl e
          | Inr rs \<Rightarrow>
             (case traverse (joinRow d (columnsOf d r @ columnsOf d j) (length (columnsOf d j))
                               on inner rs) ls of
                Inl e \<Rightarrow> Inl e
              | Inr rows \<Rightarrow> Inr (concat rows))))"
| "enumerate d (FilterSelection s w) =
     (case enumerate d s of
        Inl e \<Rightarrow> Inl e
      | Inr rows \<Rightarrow> filterE (holds d (columnsOf d s) w) rows)"
| "enumerate d (ProjectSelection s Star) = enumerate d s"
| "enumerate d (ProjectSelection s (Columns cs)) =
     (case enumerate d s of
        Inl e \<Rightarrow> Inl e
      | Inr rows \<Rightarrow>
         traverse (\<lambda>tuple. traverse (\<lambda>c. evalExpr d (columnsOf d s) tuple (sc_expr c)) cs) rows)"

text \<open>The rows handed to the caller: column name to value, in the order of the columns.\<close>

definition rowsOf :: "'e deps \<Rightarrow> 'e selection \<Rightarrow> error + row list" where
  "rowsOf d s =
     (case enumerate d s of
        Inl e \<Rightarrow> Inl e
      | Inr tuples \<Rightarrow> Inr (map (\<lambda>tuple. zip (map col_name (columnsOf d s)) tuple) tuples))"

section \<open>Query (query.ts)\<close>

definition quoted :: "string \<Rightarrow> string" where
  "quoted s = CHR 0x22 # s @ [CHR 0x22]"

text \<open>
  The \<^verbatim>\<open>switch (from.join)\<close> of \<^verbatim>\<open>executeSelect\<close>, lines 178 to 190: \<open>t\<close> is the selection
  built so far, \<open>newT\<close> the selection of the entry's table.
\<close>

definition joinSwitch :: "'e selection \<Rightarrow> 'e selection \<Rightarrow> 'e from_item \<Rightarrow> error + 'e selection" where
  "joinSwitch t newT f =
     (if from_join f = Some ''RIGHT JOIN''
        then Inr (JoinSelection newT t (from_on f) (from_join f = Some ''INNER JOIN''))
      else if from_join f = Some ''INNER JOIN''
        then Inr (JoinSelection t newT (from_on f) True)
      else if from_join f = Some ''LEFT JOIN''
        then Inr (JoinSelection t newT (from_on f) False)
      else Inl (NotSupported (Some (''Joint type not supported '' @
                  (case from_join f of None \<Rightarrow> ''undefined'' | Some j \<Rightarrow> j)))))"

text \<open>
  The loop over \<^verbatim>\<open>p.from\<close>, lines 162 to 191. \<open>t\<close> is \<^verbatim>\<open>undefined\<close> (\<open>None\<close>) until the first
  table is selected. \<open>aliases\<close> is the set created on line 161; the loop tests membership
  (line 166) and has no statement that adds to it, so every iteration sees the set it was
  started with.
\<close>

fun fromLoop ::
  "'e db \<Rightarrow> 'e selection option \<Rightarrow> string set \<Rightarrow> 'e from_item list \<Rightarrow> error + 'e selection option"
where
  "fromLoop db t aliases [] = Inr t"
| "fromLoop db t aliases (f # fs) =
     (case from_table f of
        None \<Rightarrow> Inl (NotSupported (Some ''no table name''))
      | Some name \<Rightarrow>
         if name = [] then Inl (NotSupported (Some ''no table name''))
         else if (case from_as f of Some a \<Rightarrow> a | None \<Rightarrow> name) \<in> aliases
           then Inl (Error (''Table name '' @
                       quoted (case from_as f of Some a \<Rightarrow> a | None \<Rightarrow> name) @
                       '' specified more than once''))
         else
          (case getTable db name of
             Inl e \<Rightarrow> Inl e
           | Inr tb \<Rightarrow>
              (case t of
                 None \<Rightarrow> fromLoop db (Some (TableSelection tb (from_as f))) aliases fs
               | Some t0 \<Rightarrow>
                  (case joinSwitch t0 (TableSelection tb (from_as f)) f of
                     Inl e \<Rightarrow> Inl e
                   | Inr t1 \<Rightarrow> fromLoop db (Some t1) aliases fs))))"

text \<open>Lines 192 to 194: \<^verbatim>\<open>t.filter(p.where).select(p.columns)\<close>, then \<^verbatim>\<open>[...t.enumerate()]\<close>.\<close>

definition finishSelect :: "'e deps \<Rightarrow> 'e select_stmt \<Rightarrow> 'e selection \<Rightarrow> error + row list" where
  "finishSelect d p t =
     rowsOf d (ProjectSelection (FilterSelection t (sel_where p)) (sel_columns p))"

text \<open>
  \<^verbatim>\<open>executeSelect\<close>. Iterating a \<^verbatim>\<open>p.from\<close> that is \<^verbatim>\<open>null\<close>, and calling \<^verbatim>\<open>filter\<close> on the
  \<^verbatim>\<open>undefined\<close> left by an empty list, are runtime type errors. No line reads \<^verbatim>\<open>p.orderby\<close>.
\<close>

definition executeSelect :: "'e deps \<Rightarrow> 'e db \<Rightarrow> 'e select_stmt \<Rightarrow> error + row list" where
  "executeSelect d db p =
     (if sel_type p \<noteq> ''select'' then Inl (NotSupported (Some (sel_type p)))
      else
       (case sel_from p of
          None \<Rightarrow> Inl TypeError
        | Some fs \<Rightarrow>
           (case fromLoop db None {} fs of
              Inl e \<Rightarrow> Inl e
            | Inr None \<Rightarrow> Inl TypeError
            | Inr (Some t) \<Rightarrow> finishSelect d p t)))"

definition executeUpdate :: "'e update_stmt \<Rightarrow> error + row list" where
  "executeUpdate p = Inl (Error ''Method not implemented.'')"

text \<open>
  The inner loop of \<^verbatim>\<open>executeInsert\<close>, lines 233 to 239: \<^verbatim>\<open>toInsert[columns[i]] = ...\<close> for
  each value of the tuple. The two lists have the same length when the loop is entered.
\<close>

fun buildRow ::
  "'e deps \<Rightarrow> schema_field list \<Rightarrow> row \<Rightarrow> string list \<Rightarrow> 'e list \<Rightarrow> error + row" where
  "buildRow d flds toInsert (c # cs) (e # es) =
     (case buildCell d flds c e of
        Inl err \<Rightarrow> Inl err
      | Inr v \<Rightarrow> buildRow d flds (AList.update c v toInsert) cs es)"
| "buildRow d flds toInsert _ _ = Inr toInsert"

text \<open>
  The loop over \<^verbatim>\<open>p.values\<close>, lines 226 to 241. The table object is mutated by each
  \<^verbatim>\<open>t.insert\<close>: the table reached when an exception is thrown is returned with the error.
\<close>

fun insertLoop ::
  "'e deps \<Rightarrow> 'e table \<Rightarrow> string list \<Rightarrow> 'e values_item list \<Rightarrow> 'e table \<times> (error + unit)"
where
  "insertLoop d t columns [] = (t, Inr ())"
| "insertLoop d t columns (val # vals) =
     (if val_type val \<noteq> ''expr_list''
        then (t, Inl (NotSupported (Some (''insert value type '' @ val_type val))))
      else if length (val_value val) \<noteq> length columns
        then (t, Inl (QueryError ''Insert columns / values count mismatch''))
      else
       (case buildRow d (tbl_fields t) [] columns (val_value val) of
          Inl e \<Rightarrow> (t, Inl e)
        | Inr toInsert \<Rightarrow> insertLoop d (insert_row t toInsert) columns vals))"

definition executeInsert ::
  "'e deps \<Rightarrow> 'e db \<Rightarrow> 'e insert_stmt \<Rightarrow> 'e db \<times> (error + unit)" where
  "executeInsert d db p =
     (if ins_type p \<noteq> ''insert'' then (db, Inl (NotSupported None))
      else
       (case ins_table p of
          Some [into] \<Rightarrow>
           (case ref_table into of
              None \<Rightarrow> (db, Inl (NotSupported None))
            | Some intoTable \<Rightarrow>
               if intoTable = [] then (db, Inl (NotSupported None))
               else
                (case getTable db intoTable of
                   Inl e \<Rightarrow> (db, Inl e)
                 | Inr t \<Rightarrow>
                    (let columns = (case ins_columns p of
                                      Some cs \<Rightarrow> cs
                                    | None \<Rightarrow> map fld_id (tbl_fields t));
                         (t', r) = insertLoop d t columns (ins_values p)
                     in (db(intoTable \<mapsto> t'), r))))
        | _ \<Rightarrow> (db, Inl (NotSupported None))))"

text \<open>\<^verbatim>\<open>executeCreateTable\<close>: the type of a column (lines 117 to 139) and a field (lines 97 to 151).\<close>

definition typeOfDefinition :: "type_definition \<Rightarrow> error + sqltype" where
  "typeOfDefinition df =
     (let dt = def_dataType df in
      if dt = ''TEXT'' \<or> dt = ''VARCHAR'' then Inr (TText (def_length df))
      else if dt = ''INT'' \<or> dt = ''INTEGER'' then Inr TInt
      else if dt = ''DECIMAL'' \<or> dt = ''FLOAT'' then Inr TFloat
      else if dt = ''TIMESTAMP'' then Inr TTimestamp
      else if dt = ''DATE'' then Inr TDate
      else if dt = ''JSON'' then Inr TJson
      else if dt = ''JSONB'' then Inr TJsonb
      else Inl (NotSupported (Some (''Type '' @ quoted dt))))"

definition uniqueOrPrimary :: "string option \<Rightarrow> error + bool \<times> bool" where
  "uniqueOrPrimary u =
     (case u of
        None \<Rightarrow> Inr (False, False)
      | Some k \<Rightarrow>
         if k = ''primary key'' then Inr (True, False)
         else if k = ''unique'' then Inr (False, True)
         else Inl (NotSupported (Some k)))"

definition fieldOf :: "create_definition \<Rightarrow> error + schema_field" where
  "fieldOf f =
     (if cr_type (cd_column f) \<noteq> ''column_ref''
        then Inl (NotSupported (Some (cr_type (cd_column f))))
      else
       (case uniqueOrPrimary (cd_unique_or_primary f) of
          Inl e \<Rightarrow> Inl e
        | Inr (prim, uniq) \<Rightarrow>
           (case typeOfDefinition (cd_definition f) of
              Inl e \<Rightarrow> Inl e
            | Inr ty \<Rightarrow>
               (case def_suffix (cd_definition f) of
                  Some (_ # _) \<Rightarrow> Inl (NotSupported (Some ''column suffix''))
                | _ \<Rightarrow>
                   Inr \<lparr>fld_id = cr_column (cd_column f), fld_type = ty,
                        fld_primary = prim, fld_unique = uniq\<rparr>))))"

text \<open>What a statement hands back to \<^verbatim>\<open>_query\<close>: \<^verbatim>\<open>undefined\<close>, \<^verbatim>\<open>null\<close> or rows.\<close>

datatype result = Undefined | JsNull | Rows "row list"

definition executeCreateTable ::
  "'e db \<Rightarrow> create_table_stmt \<Rightarrow> 'e db \<times> (error + result)" where
  "executeCreateTable db p =
     (case ct_table p of
        [] \<Rightarrow> (db, Inl TypeError)
      | table # _ \<Rightarrow>
         (case traverse fieldOf
                 (filter (\<lambda>f. cd_resource f = ''column'') (ct_create_definitions p)) of
            Inl e \<Rightarrow> (db, Inl e)
          | Inr flds \<Rightarrow> (declareTable db table flds, Inr JsNull)))"

definition indexColumn ::
  "'e deps \<Rightarrow> 'e table \<Rightarrow> 'e index_column \<Rightarrow> error + 'e index_col_def" where
  "indexColumn d onTable x =
     (case buildValue d (tbl_fields onTable) (ixc_column x) of
        Inl e \<Rightarrow> Inl e
      | Inr v \<Rightarrow>
         Inr \<lparr>icd_value = v, icd_nullsLast = (ixc_nulls x = Some ''nulls last''),
              icd_desc = (ixc_order x = Some ''desc'')\<rparr>)"

definition executeCreateIndex ::
  "'e deps \<Rightarrow> 'e db \<Rightarrow> 'e create_index_stmt \<Rightarrow> 'e db \<times> (error + result)" where
  "executeCreateIndex d db p =
     (if ci_on_kw p \<noteq> Some ''on'' then (db, Inl (NotSupported (ci_on_kw p)))
      else if \<not> ci_with_before_where p then (db, Inl (NotSupported None))
      else
       (case getTable db (ci_table p) of
          Inl e \<Rightarrow> (db, Inl e)
        | Inr onTable \<Rightarrow>
           (case traverse (indexColumn d onTable) (ci_index_columns p) of
              Inl e \<Rightarrow> (db, Inl e)
            | Inr columns \<Rightarrow>
               (db(ci_table p \<mapsto>
                     createIndex onTable \<lparr>ixd_columns = columns, ixd_indexName = ci_index p\<rparr>),
                Inr Undefined))))"

text \<open>The \<^verbatim>\<open>switch (p.type)\<close> of \<^verbatim>\<open>_query\<close>, lines 35 to 59.\<close>

fun execStatement :: "'e deps \<Rightarrow> 'e db \<Rightarrow> 'e statement \<Rightarrow> 'e db \<times> (error + result)" where
  "execStatement d db (Insert p) =
     (case executeInsert d db p of
        (db', Inl e) \<Rightarrow> (db', Inl e)
      | (db', Inr _) \<Rightarrow> (db', Inr Undefined))"
| "execStatement d db (Update p) =
     (case executeUpdate p of Inl e \<Rightarrow> (db, Inl e) | Inr rows \<Rightarrow> (db, Inr (Rows rows)))"
| "execStatement d db (Select p) =
     (case executeSelect d db p of Inl e \<Rightarrow> (db, Inl e) | Inr rows \<Rightarrow> (db, Inr (Rows rows)))"
| "execStatement d db (CreateTable p) = executeCreateTable db p"
| "execStatement d db (CreateIndex p) = executeCreateIndex d db p"
| "execStatement d db (CreateOther k) = (db, Inl (NotSupported (Some (''create '' @ k))))"
| "execStatement d db (OtherStatement ty) = (db, Inl (NotSupported (Some ty)))"

text \<open>
  The loop of \<^verbatim>\<open>_query\<close> over the parsed statements, lines 32 to 62: each statement is
  executed, then checked with \<^verbatim>\<open>p.check?.()\<close>; an exception ends the loop and leaves the
  database as it is at that point; the value of the last statement is returned.
\<close>

fun queryLoop ::
  "'e deps \<Rightarrow> 'e db \<Rightarrow> result \<Rightarrow> 'e statement list \<Rightarrow> 'e db \<times> (error + result)" where
  "queryLoop d db lastResult [] = (db, Inr lastResult)"
| "queryLoop d db lastResult (p # ps) =
     (case execStatement d db p of
        (db', Inl e) \<Rightarrow> (db', Inl e)
      | (db', Inr r) \<Rightarrow>
         (case check d p of
            Some e \<Rightarrow> (db', Inl e)
          | None \<Rightarrow> queryLoop d db' r ps))"

definition query :: "'e deps \<Rightarrow> 'e db \<Rightarrow> 'e statement list \<Rightarrow> 'e db \<times> (error + result)" where
  "query d db parsed = queryLoop d db Undefined parsed"

definition many :: "'e deps \<Rightarrow> 'e db \<Rightarrow> 'e statement list \<Rightarrow> 'e db \<times> (error + result)" where
  "many d db parsed = query d db parsed"

definition none :: "'e deps \<Rightarrow> 'e db \<Rightarrow> 'e statement list \<Rightarrow> 'e db \<times> (error + unit)" where
  "none d db parsed =
     (case query d db parsed of (db', Inl e) \<Rightarrow> (db', Inl e) | (db', Inr _) \<Rightarrow> (db', Inr ()))"

section \<open>Transactions\<close>

text \<open>
  Modelled from the spec: the transaction of sections 3 and 4.3 (the class is not among the
  sources; \<^verbatim>\<open>DropIndex\<close> and \<^verbatim>\<open>DropSequence\<close> call its \<^verbatim>\<open>fullCommit\<close> and \<^verbatim>\<open>fork\<close>).
  A transaction has a parent reference (the root has none) and its pending changes, and is
  open, committed or rolled back. Transactions are held in a store and named by their
  position in it; \<^verbatim>\<open>fork\<close> appends, so a child's handle is greater than its parent's.
  The pending changes of the root are the committed state everything is folded into.
\<close>

type_synonym handle = nat

datatype txstate = Open | Committed | RolledBack

record 'c txn =
  tx_parent :: "handle option"
  tx_pending :: "'c list"
  tx_state :: txstate

datatype schema_object =
    IndexObject string string
  | SequenceObject string
  | TableObject string

text \<open>
  The state the statement executors work on: the store of transactions and the registry of
  named schema objects. An index object names the table it is on and itself.
\<close>

record 'c world =
  txns :: "'c txn list"
  registry :: "string \<rightharpoonup> schema_object"

definition getTx :: "'c world \<Rightarrow> handle \<Rightarrow> 'c txn option" where
  "getTx w h = (if h < length (txns w) then Some (txns w ! h) else None)"

definition setTx :: "'c world \<Rightarrow> handle \<Rightarrow> 'c txn \<Rightarrow> 'c world" where
  "setTx w h t = w\<lparr>txns := (txns w)[h := t]\<rparr>"

text \<open>
  Modelled from the spec: a scope can be forked and can take the changes of a child when it
  is open, or when it is the committed root (the scope \<^verbatim>\<open>fullCommit\<close> returns, on which
  section 4.3 creates the fresh fork). Any other use of a terminal transaction is the fatal
  internal error of sections 5 and 7.
\<close>

definition usable :: "'c txn \<Rightarrow> bool" where
  "usable t = (tx_state t = Open \<or> (tx_state t = Committed \<and> tx_parent t = None))"

definition terminalUse :: error where
  "terminalUse = InternalError ''transaction is not usable''"

text \<open>Modelled from the spec: \<^verbatim>\<open>fork()\<close> creates a new open child with nothing pending.\<close>

definition fork :: "'c world \<Rightarrow> handle \<Rightarrow> error + 'c world \<times> handle" where
  "fork w h =
     (case getTx w h of
        None \<Rightarrow> Inl terminalUse
      | Some t \<Rightarrow>
         if usable t
         then Inr (w\<lparr>txns := txns w @ [\<lparr>tx_parent = Some h, tx_pending = [], tx_state = Open\<rparr>]\<rparr>,
                   length (txns w))
         else Inl terminalUse)"

text \<open>
  Modelled from the spec: \<^verbatim>\<open>commit()\<close> folds the pending changes of an open transaction into
  its parent and makes it terminal; the result is the parent. Committing the root makes its
  changes the committed state.
\<close>

definition commit :: "'c world \<Rightarrow> handle \<Rightarrow> error + 'c world \<times> handle" where
  "commit w h =
     (case getTx w h of
        None \<Rightarrow> Inl terminalUse
      | Some t \<Rightarrow>
         if tx_state t \<noteq> Open then Inl terminalUse
         else
          (case tx_parent t of
             None \<Rightarrow> Inr (setTx w h (t\<lparr>tx_state := Committed\<rparr>), h)
           | Some p \<Rightarrow>
              (case getTx w p of
                 None \<Rightarrow> Inl terminalUse
               | Some pt \<Rightarrow>
                  if usable pt
                  then Inr (setTx (setTx w p (pt\<lparr>tx_pending := tx_pending pt @ tx_pending t\<rparr>))
                              h (t\<lparr>tx_pending := [], tx_state := Committed\<rparr>),
                            p)
                  else Inl terminalUse)))"

text \<open>Modelled from the spec: \<^verbatim>\<open>rollback()\<close> discards the pending changes of an open transaction.\<close>

definition rollback :: "'c world \<Rightarrow> handle \<Rightarrow> error + 'c world" where
  "rollback w h =
     (case getTx w h of
        None \<Rightarrow> Inl terminalUse
      | Some t \<Rightarrow>
         if tx_state t \<noteq> Open then Inl terminalUse
         else Inr (setTx w h (t\<lparr>tx_pending := [], tx_state := RolledBack\<rparr>)))"

text \<open>Modelled from the spec: a change is recorded as pending in an open transaction.\<close>

definition recordChange :: "'c world \<Rightarrow> handle \<Rightarrow> 'c \<Rightarrow> error + 'c world" where
  "recordChange w h c =
     (case getTx w h of
        None \<Rightarrow> Inl terminalUse
      | Some t \<Rightarrow>
         if tx_state t \<noteq> Open then Inl terminalUse
         else Inr (setTx w h (t\<lparr>tx_pending := tx_pending t @ [c]\<rparr>)))"

text \<open>
  Modelled from the spec: \<^verbatim>\<open>fullCommit()\<close> walks up and commits every ancestor up to and
  including the root, and returns that committed scope. A root that is already committed is
  returned as it is.
\<close>

function fullCommit :: "'c world \<Rightarrow> handle \<Rightarrow> error + 'c world \<times> handle" where
  "fullCommit w h =
     (case getTx w h of
        None \<Rightarrow> Inl terminalUse
      | Some t \<Rightarrow>
         (case tx_parent t of
            None \<Rightarrow> if tx_state t = Committed then Inr (w, h) else commit w h
          | Some p \<Rightarrow>
             if p < h
             then (case commit w h of Inl e \<Rightarrow> Inl e | Inr (w', r) \<Rightarrow> fullCommit w' p)
             else Inl terminalUse))"
  by pat_completeness auto
termination
  by (relation "measure (\<lambda>(w, h). h)") auto

text \<open>The chain from a transaction up to the root, and the root it ends in.\<close>

function ancestors :: "'c world \<Rightarrow> handle \<Rightarrow> handle list" where
  "ancestors w h =
     (case getTx w h of
        None \<Rightarrow> []
      | Some t \<Rightarrow>
         (case tx_parent t of
            None \<Rightarrow> [h]
          | Some p \<Rightarrow> if p < h then h # ancestors w p else [h]))"
  by pat_completeness auto
termination
  by (relation "measure (\<lambda>(w, h). h)") auto

definition rootOf :: "'c world \<Rightarrow> handle \<Rightarrow> handle" where
  "rootOf w h = (case ancestors w h of [] \<Rightarrow> h | a # as \<Rightarrow> last (a # as))"

definition pendingOf :: "'c world \<Rightarrow> handle \<Rightarrow> 'c list" where
  "pendingOf w h = (case getTx w h of None \<Rightarrow> [] | Some t \<Rightarrow> tx_pending t)"

definition stateOf :: "'c world \<Rightarrow> handle \<Rightarrow> txstate option" where
  "stateOf w h = map_option tx_state (getTx w h)"

text \<open>
  Modelled from the spec: the visibility rule of section 4.3. A read through a transaction
  sees the changes of the root first, then those of each descendant down to its own.
\<close>

definition visible :: "'c world \<Rightarrow> handle \<Rightarrow> 'c list" where
  "visible w h = concat (map (pendingOf w) (rev (ancestors w h)))"

text \<open>
  A chain on which a statement can run: the transaction and its ancestors below the root are
  open, and the root is open or already committed.
\<close>

function openChain :: "'c world \<Rightarrow> handle \<Rightarrow> bool" where
  "openChain w h =
     (case getTx w h of
        None \<Rightarrow> False
      | Some t \<Rightarrow>
         (case tx_parent t of
            None \<Rightarrow> tx_state t \<noteq> RolledBack
          | Some p \<Rightarrow> if tx_state t = Open \<and> p < h then openChain w p else False))"
  by pat_completeness auto
termination
  by (relation "measure (\<lambda>(w, h). h)") auto

section \<open>DropIndex and DropSequence\<close>

record drop_statement =
  ds_name :: string
  ds_ifExists :: bool
  ds_concurrently :: bool

record named_index =
  ni_onTable :: string
  ni_name :: string

text \<open>
  Modelled from the spec: \<^verbatim>\<open>getObject(name, {nullIfNotFound}) -> object|null\<close> of the schema
  registry (section 6); a missing object is an error unless absence is tolerated (section 7).
\<close>

definition getObject ::
  "(string \<rightharpoonup> schema_object) \<Rightarrow> string \<Rightarrow> bool \<Rightarrow> error + schema_object option" where
  "getObject schema name nullIfNotFound =
     (case schema name of
        Some ob \<Rightarrow> Inr (Some ob)
      | None \<Rightarrow> if nullIfNotFound then Inr None else Inl (ObjectNotFound name))"

text \<open>
  \<^verbatim>\<open>asIndex\<close> and \<^verbatim>\<open>asSeq\<close> are imported from \<^verbatim>\<open>interfaces-private\<close>, which is not among the
  sources. They are taken to be casts: \<^verbatim>\<open>null\<close> stays \<^verbatim>\<open>null\<close>, an object of the kind asked for
  is returned, an object of another kind is an error.
\<close>

definition asIndex :: "schema_object option \<Rightarrow> error + named_index option" where
  "asIndex ob =
     (case ob of
        None \<Rightarrow> Inr None
      | Some (IndexObject tb n) \<Rightarrow> Inr (Some \<lparr>ni_onTable = tb, ni_name = n\<rparr>)
      | Some _ \<Rightarrow> Inl (QueryError ''not an index''))"

definition asSeq :: "schema_object option \<Rightarrow> error + string option" where
  "asSeq ob =
     (case ob of
        None \<Rightarrow> Inr None
      | Some (SequenceObject n) \<Rightarrow> Inr (Some n)
      | Some _ \<Rightarrow> Inl (QueryError ''not a sequence''))"

text \<open>
  The constructors (planning): \<^verbatim>\<open>DropIndex\<close> keeps \<^verbatim>\<open>idx\<close>, \<^verbatim>\<open>DropSequence\<close> keeps \<^verbatim>\<open>seq\<close>;
  either is \<^verbatim>\<open>null\<close> when the object is missing and the statement says \<^verbatim>\<open>IF EXISTS\<close>.
  The calls of \<^verbatim>\<open>ignore\<close> have no effect on the state.
\<close>

record dropIndex =
  di_idx :: "named_index option"

record dropSequence =
  dsq_seq :: "string option"

definition newDropIndex ::
  "(string \<rightharpoonup> schema_object) \<Rightarrow> drop_statement \<Rightarrow> error + dropIndex" where
  "newDropIndex schema statement =
     (case getObject schema (ds_name statement) (ds_ifExists statement) of
        Inl e \<Rightarrow> Inl e
      | Inr ob \<Rightarrow> (case asIndex ob of Inl e \<Rightarrow> Inl e | Inr i \<Rightarrow> Inr \<lparr>di_idx = i\<rparr>))"

definition newDropSequence ::
  "(string \<rightharpoonup> schema_object) \<Rightarrow> drop_statement \<Rightarrow> error + dropSequence" where
  "newDropSequence schema statement =
     (case getObject schema (ds_name statement) (ds_ifExists statement) of
        Inl e \<Rightarrow> Inl e
      | Inr ob \<Rightarrow> (case asSeq ob of Inl e \<Rightarrow> Inl e | Inr sq \<Rightarrow> Inr \<lparr>dsq_seq = sq\<rparr>))"

text \<open>
  Modelled from the spec: dropping an index or a sequence mutates the set of schema objects
  directly; it records no pending change in the transaction it is given (section 4.3).
\<close>

definition dropIndexOnTable :: "'c world \<Rightarrow> handle \<Rightarrow> string \<Rightarrow> string \<Rightarrow> 'c world" where
  "dropIndexOnTable w t onTable name =
     (if registry w name = Some (IndexObject onTable name)
      then w\<lparr>registry := (registry w)(name := None)\<rparr> else w)"

definition dropSeq :: "'c world \<Rightarrow> handle \<Rightarrow> string \<Rightarrow> 'c world" where
  "dropSeq w t name =
     (if registry w name = Some (SequenceObject name)
      then w\<lparr>registry := (registry w)(name := None)\<rparr> else w)"

text \<open>
  Modelled from the spec: the result descriptor of section 4.4, as \<^verbatim>\<open>ExecHelper.noData\<close>
  builds it: the transaction to continue in, the command tag, and no rows.
\<close>

record exec_result =
  res_state :: handle
  res_command :: string
  res_rowCount :: nat
  res_rows :: "row list"

definition noData :: "handle \<Rightarrow> string \<Rightarrow> exec_result" where
  "noData t tag = \<lparr>res_state = t, res_command = tag, res_rowCount = 0, res_rows = []\<rparr>"

text \<open>
  \<^verbatim>\<open>DropIndex.execute\<close> (drop-index.ts, lines 24 to 36) and \<^verbatim>\<open>DropSequence.execute\<close>:
  \<^verbatim>\<open>t = t.fullCommit()\<close>, the drop unless the object is \<^verbatim>\<open>null\<close>, \<^verbatim>\<open>t = t.fork()\<close>,
  \<^verbatim>\<open>return this.noData(t, 'DROP')\<close>.
\<close>

definition executeDropIndex ::
  "dropIndex \<Rightarrow> 'c world \<Rightarrow> handle \<Rightarrow> error + 'c world \<times> exec_result" where
  "executeDropIndex self w t =
     (case fullCommit w t of
        Inl e \<Rightarrow> Inl e
      | Inr (w1, t1) \<Rightarrow>
         (case fork (case di_idx self of
                       None \<Rightarrow> w1
                     | Some idx \<Rightarrow> dropIndexOnTable w1 t1 (ni_onTable idx) (ni_name idx)) t1 of
            Inl e \<Rightarrow> Inl e
          | Inr (w3, t2) \<Rightarrow> Inr (w3, noData t2 ''DROP'')))"

definition executeDropSequence ::
  "dropSequence \<Rightarrow> 'c world \<Rightarrow> handle \<Rightarrow> error + 'c world \<times> exec_result" where
  "executeDropSequence self w t =
     (case fullCommit w t of
        Inl e \<Rightarrow> Inl e
      | Inr (w1, t1) \<Rightarrow>
         (case fork (case dsq_seq self of None \<Rightarrow> w1 | Some sq \<Rightarrow> dropSeq w1 t1 sq) t1 of
            Inl e \<Rightarrow> Inl e
          | Inr (w3, t2) \<Rightarrow> Inr (w3, noData t2 ''DROP'')))"

text \<open>
  What the drop executors leave behind, for a statement run in transaction \<open>t\<close> of the state
  \<open>w\<close>, with \<open>w'\<close> the state and \<open>r\<close> the descriptor returned:
  \<^item> the descriptor has the tag \<^verbatim>\<open>DROP\<close>, no rows, and a transaction created by this call;
  \<^item> that transaction is an open child of the root of \<open>t\<close>, with nothing pending;
  \<^item> \<open>t\<close> and every ancestor of \<open>t\<close> is committed, and neither \<^verbatim>\<open>rollback\<close> nor \<^verbatim>\<open>commit\<close>
    is accepted through any of these handles any more;
  \<^item> the changes that were pending along the chain are the committed state of the root, and
    they are what the returned transaction sees;
  \<^item> the returned transaction can be rolled back, committed and forked.
\<close>

definition succeeds :: "error + 'a \<Rightarrow> bool" where
  "succeeds r = (case r of Inl e \<Rightarrow> False | Inr x \<Rightarrow> True)"

definition committedThenForked :: "'c world \<Rightarrow> handle \<Rightarrow> 'c world \<Rightarrow> exec_result \<Rightarrow> bool" where
  "committedThenForked w t w' r =
     (r = noData (length (txns w)) ''DROP''
      \<and> getTx w' (res_state r) =
          Some \<lparr>tx_parent = Some (rootOf w t), tx_pending = [], tx_state = Open\<rparr>
      \<and> list_all (\<lambda>a. stateOf w' a = Some Committed
                       \<and> rollback w' a = Inl terminalUse
                       \<and> commit w' a = Inl terminalUse) (ancestors w t)
      \<and> pendingOf w' (rootOf w t) = visible w t
      \<and> visible w' (res_state r) = visible w t
      \<and> succeeds (rollback w' (res_state r))
      \<and> succeeds (commit w' (res_state r))
      \<and> succeeds (fork w' (res_state r)))"

section \<open>Concrete statements and states\<close>

text \<open>
  An instance of the parameters of the model, to run it on concrete statements: expressions
  are literals, column references and comparisons; a column reference is looked up by name
  (and by table or alias, when it is qualified) in the columns of the row; a comparison is
  evaluated by \<open>evalComparison\<close>; the value inserted for a literal is the literal.
\<close>

datatype expr =
    Literal "value"
  | ColumnRef "string option" string
  | Comparison cmpop expr expr

fun lookupColumn :: "string option \<Rightarrow> string \<Rightarrow> column list \<Rightarrow> value list \<Rightarrow> error + value" where
  "lookupColumn src n (c # cs) (v # vs) =
     (if col_name c = n \<and> (case src of None \<Rightarrow> True | Some s \<Rightarrow> col_source c = s) then Inr v
      else lookupColumn src n cs vs)"
| "lookupColumn src n _ _ = Inl (QueryError (''column '' @ quoted n @ '' does not exist''))"

fun evalSimple :: "column list \<Rightarrow> value list \<Rightarrow> expr \<Rightarrow> error + value" where
  "evalSimple cols tuple (Literal v) = Inr v"
| "evalSimple cols tuple (ColumnRef src n) = lookupColumn src n cols tuple"
| "evalSimple cols tuple (Comparison ope a b) =
     (case evalSimple cols tuple a of
        Inl e \<Rightarrow> Inl e
      | Inr x \<Rightarrow>
         (case evalSimple cols tuple b of
            Inl e \<Rightarrow> Inl e
          | Inr y \<Rightarrow> evalComparison ope x y))"

definition simpleDeps :: "expr deps" where
  "simpleDeps =
     \<lparr>buildCell = (\<lambda>flds c e. case e of Literal v \<Rightarrow> Inr v | _ \<Rightarrow> Inl (NotSupported None)),
      buildValue = (\<lambda>flds e. Inr e),
      evalExpr = evalSimple,
      exprName = (\<lambda>e. case e of ColumnRef src n \<Rightarrow> n | _ \<Rightarrow> ''?column?''),
      check = (\<lambda>p. None)\<rparr>"

text \<open>
  The table of the order-by tests: \<^verbatim>\<open>create table test(val text)\<close> after
  \<^verbatim>\<open>insert into test values ('b'), ('a'), (null)\<close>.
\<close>

definition testTable :: "expr table" where
  "testTable =
     \<lparr>tbl_name = ''test'',
      tbl_fields = [\<lparr>fld_id = ''val'', fld_type = TText None, fld_primary = False,
                     fld_unique = False\<rparr>],
      tbl_rows = [[(''val'', TextV ''b'')], [(''val'', TextV ''a'')], [(''val'', Null)]],
      tbl_indexes = []\<rparr>"

text \<open>A second table, \<^verbatim>\<open>other(val2 text)\<close>, with the rows \<^verbatim>\<open>('a')\<close> and \<^verbatim>\<open>('c')\<close>.\<close>

definition otherTable :: "expr table" where
  "otherTable =
     \<lparr>tbl_name = ''other'',
      tbl_fields = [\<lparr>fld_id = ''val2'', fld_type = TText None, fld_primary = False,
                     fld_unique = False\<rparr>],
      tbl_rows = [[(''val2'', TextV ''a'')], [(''val2'', TextV ''c'')]],
      tbl_indexes = []\<rparr>"

definition testDb :: "expr db" where
  "testDb = [''test'' \<mapsto> testTable, ''other'' \<mapsto> otherTable]"

definition fromTable ::
  "string \<Rightarrow> string option \<Rightarrow> string option \<Rightarrow> expr option \<Rightarrow> expr from_item" where
  "fromTable n a j on = \<lparr>from_table = Some n, from_as = a, from_join = j, from_on = on\<rparr>"

definition selectFrom :: "expr select_columns \<Rightarrow> expr from_item list \<Rightarrow> expr select_stmt" where
  "selectFrom cols fs =
     \<lparr>sel_type = ''select'', sel_from = Some fs, sel_where = None, sel_columns = cols,
      sel_orderby = None\<rparr>"

text \<open>
  A chain of three open transactions, each with one pending change, and a registry with an
  index on table \<^verbatim>\<open>test\<close> and a sequence.
\<close>

definition exampleWorld :: "string world" where
  "exampleWorld =
     \<lparr>txns = [\<lparr>tx_parent = None, tx_pending = [''insert a''], tx_state = Open\<rparr>,
              \<lparr>tx_parent = Some 0, tx_pending = [''insert b''], tx_state = Open\<rparr>,
              \<lparr>tx_parent = Some 1, tx_pending = [''insert c''], tx_state = Open\<rparr>],
      registry = [''idx'' \<mapsto> IndexObject ''test'' ''idx'', ''seq'' \<mapsto> SequenceObject ''seq'']\<rparr>"

chapter \<open>Properties\<close>

declare fullCommit.simps [simp del]
declare ancestors.simps [simp del]
declare openChain.simps [simp del]

section \<open>Ordering of jsonb values\<close>

lemmas compare_defs = compareNat_def compareNum_def compareBool_def compareInt_def





text \<open>
  Claim C4. The comparison operators on jsonb values give the truth table of section 8, which
  is the table of the test suite \<^verbatim>\<open>orders jsonb values\<close>: the eleven comparisons listed as
  true are true, the six listed as false are false.
\<close>

theorem jsonb_truth_table:
  "jsonbOp OpGt (JObj []) (JArr [])
   \<and> jsonbOp OpGt (JObj []) (JNum 1)
   \<and> jsonbOp OpLt (JArr []) (JNum 1)
   \<and> jsonbOp OpGt (JObj [(''a'', JStr ''b'')]) (JObj [(''a'', JStr ''a'')])
   \<and> jsonbOp OpGe (JObj [(''a'', JStr ''a''), (''b'', JStr ''c'')]) (JObj [(''a'', JStr ''a'')])
   \<and> jsonbOp OpGe (JObj []) JNull
   \<and> jsonbOp OpGe (JNum 1) JNull
   \<and> jsonbOp OpLt (JArr []) JNull
   \<and> jsonbOp OpGt (JArr [JNum 1, JNum 2]) (JArr [JNum 1])
   \<and> jsonbOp OpGt (JArr [JNum 2, JNum 2]) (JArr [JNum 1, JNum 2])
   \<and> jsonbOp OpEq JNull JNull
   \<and> \<not> jsonbOp OpGt (JObj [(''a'', JStr ''a'')]) (JObj [(''a'', JStr ''a'')])
   \<and> \<not> jsonbOp OpLt (JObj []) (JArr [])
   \<and> \<not> jsonbOp OpGe (JArr []) JNull
   \<and> \<not> jsonbOp OpGt (JArr [JNum 1, JNum 2]) (JArr [JNum 1, JNum 2, JNum 3])
   \<and> \<not> jsonbOp OpGt (JArr [JNum 2, JNum 2]) (JArr [JNum 1, JNum 2, JNum 3])
   \<and> \<not> jsonbOp OpEq (JArr [JNum 2, JNum 2]) JNull"
  by (simp add: compare_defs)

section \<open>Comparisons with SQL NULL\<close>

text \<open>
  Claim C5. For every operator among \<^verbatim>\<open>= < <= > >=\<close> and every pair of operands of any
  types, a jsonb value and the json null value included, the comparison evaluates to the
  NULL value when either operand is SQL NULL; it is neither true nor false, and not an error.
\<close>

theorem comparison_with_sql_null:
  "a = Null \<or> b = Null \<Longrightarrow> evalComparison ope a b = Inr Null"
  by (cases a; cases b; auto)

text \<open>The cases of the test \<^verbatim>\<open>cannot compare with null\<close>, and NULL on the left.\<close>

theorem comparison_with_sql_null_witness:
  "evalComparison OpEq (JsonbV (JObj [])) Null = Inr Null
   \<and> evalComparison OpLt (JsonbV (JObj [])) Null = Inr Null
   \<and> evalComparison OpGt (JsonbV (JObj [])) Null = Inr Null
   \<and> evalComparison OpEq (JsonbV (JArr [])) Null = Inr Null
   \<and> evalComparison OpEq (JsonbV JNull) Null = Inr Null
   \<and> evalComparison OpGe Null (IntV 3) = Inr Null
   \<and> evalComparison OpLe Null Null = Inr Null"
  using comparison_with_sql_null [of "JsonbV (JObj [])" Null OpEq]
    comparison_with_sql_null [of "JsonbV (JObj [])" Null OpLt]
    comparison_with_sql_null [of "JsonbV (JObj [])" Null OpGt]
    comparison_with_sql_null [of "JsonbV (JArr [])" Null OpEq]
    comparison_with_sql_null [of "JsonbV JNull" Null OpEq]
    comparison_with_sql_null [of Null "IntV 3" OpGe]
    comparison_with_sql_null [of Null Null OpLe]
  by simp

section \<open>UPDATE\<close>

text \<open>
  Claim C7, as amended. \<^verbatim>\<open>_query\<close> dispatches an UPDATE statement to \<^verbatim>\<open>executeUpdate\<close>, which
  fails unconditionally with the error \<^verbatim>\<open>Method not implemented.\<close>: whatever the table and the
  statement, no row is mutated, the database is left as it was, and the statements after
  the UPDATE in the same call are not executed.
\<close>

theorem update_not_implemented:
  "executeUpdate u = Inl (Error ''Method not implemented.'')
   \<and> execStatement d db (Update u) = (db, Inl (Error ''Method not implemented.''))
   \<and> query d db (Update u # rest) = (db, Inl (Error ''Method not implemented.''))"
  by (simp add: query_def executeUpdate_def)

text \<open>
  Claim C7 as stated fails: a well-formed \<^verbatim>\<open>update test set val = 'c'\<close> on the existing table
  \<^verbatim>\<open>test\<close> does not succeed, and the table keeps its three rows.
\<close>

theorem update_succeeds_counterexample:
  "query simpleDeps testDb
     [Update \<lparr>upd_table = Some [\<lparr>ref_table = Some ''test''\<rparr>],
              upd_set = [(''val'', Literal (TextV ''c''))], upd_where = None\<rparr>]
   = (testDb, Inl (Error ''Method not implemented.''))"
  by (simp add: query_def executeUpdate_def)

section \<open>Joins in SELECT\<close>

lemma fromLoop_append:
  "fromLoop db t al (fs @ gs) =
     (case fromLoop db t al fs of Inl e \<Rightarrow> Inl e | Inr t' \<Rightarrow> fromLoop db t' al gs)"
  by (induction fs arbitrary: t) (auto split: option.splits sum.splits)

lemma traverse_length: "traverse f xs = Inr ys \<Longrightarrow> length ys = length xs"
  by (induction xs arbitrary: ys) (auto split: sum.splits)

lemma traverse_all:
  "traverse f xs = Inr ys \<Longrightarrow> y \<in> set ys \<Longrightarrow> \<exists>x\<in>set xs. f x = Inr y"
  by (induction xs arbitrary: ys) (auto split: sum.splits)

lemma project_row_names:
  assumes "rowsOf d (ProjectSelection s (Columns cs)) = Inr rows" and "r \<in> set rows"
  shows "map fst r = map (outName d) cs"
proof -
  from assms obtain tuples where
    en: "enumerate d (ProjectSelection s (Columns cs)) = Inr tuples"
    and rows: "rows = map (\<lambda>tuple. zip (map col_name
                 (columnsOf d (ProjectSelection s (Columns cs)))) tuple) tuples"
    by (auto simp: rowsOf_def split: sum.splits)
  from assms(2) rows obtain tuple where
    tu: "tuple \<in> set tuples" and r: "r = zip (map (outName d) cs) tuple"
    by (auto simp: comp_def)
  from en obtain base where
    tr: "traverse (\<lambda>tuple. traverse (\<lambda>c. evalExpr d (columnsOf d s) tuple (sc_expr c)) cs) base
           = Inr tuples"
    by (auto split: sum.splits)
  from traverse_all [OF tr tu] obtain b where
    "traverse (\<lambda>c. evalExpr d (columnsOf d s) b (sc_expr c)) cs = Inr tuple" by blast
  then have "length tuple = length cs" by (rule traverse_length)
  with r show ?thesis by simp
qed

text \<open>Every tuple a selection enumerates has one value for each of its columns.\<close>

lemma filterE_subset: "filterE f xs = Inr ys \<Longrightarrow> set ys \<subseteq> set xs"
  by (induction xs arbitrary: ys) (auto split: sum.splits if_splits)

lemma joinRow_length:
  assumes "joinRow d cols n on inner rs l = Inr out" and "\<forall>r\<in>set rs. length r = n"
    and "tu \<in> set out"
  shows "length tu = length l + n"
proof -
  from assms(1) obtain ms where ms: "filterE (\<lambda>r. holds d cols on (l @ r)) rs = Inr ms"
    and out: "out = (if ms = [] then (if inner then [] else [l @ replicate n Null])
                     else map (\<lambda>r. l @ r) ms)"
    by (auto simp: joinRow_def split: sum.splits)
  from filterE_subset [OF ms] assms(2) have "\<forall>r\<in>set ms. length r = n" by blast
  with out assms(3) show ?thesis by (auto split: if_splits)
qed

lemma enumerate_length:
  "enumerate d s = Inr ts \<Longrightarrow> tu \<in> set ts \<Longrightarrow> length tu = length (columnsOf d s)"
proof (induction s arbitrary: ts tu)
  case (TableSelection t a)
  then show ?case by auto
next
  case (JoinSelection r j on inner)
  from JoinSelection.prems(1) obtain ls rs rows where
    ls: "enumerate d r = Inr ls" and rs: "enumerate d j = Inr rs"
    and tr: "traverse (joinRow d (columnsOf d r @ columnsOf d j) (length (columnsOf d j))
                         on inner rs) ls = Inr rows"
    and ts: "ts = concat rows"
    by (auto split: sum.splits)
  from JoinSelection.prems(2) ts obtain out where out: "out \<in> set rows" "tu \<in> set out"
    by auto
  from traverse_all [OF tr out(1)] obtain l where l: "l \<in> set ls"
    "joinRow d (columnsOf d r @ columnsOf d j) (length (columnsOf d j)) on inner rs l = Inr out"
    by blast
  have "\<forall>x\<in>set rs. length x = length (columnsOf d j)"
    using JoinSelection.IH(2) [OF rs] by blast
  from joinRow_length [OF l(2) this out(2)] JoinSelection.IH(1) [OF ls l(1)]
  show ?case by simp
next
  case (FilterSelection s w)
  from FilterSelection.prems(1) obtain rows where
    rows: "enumerate d s = Inr rows" and f: "filterE (holds d (columnsOf d s) w) rows = Inr ts"
    by (auto split: sum.splits)
  from filterE_subset [OF f] FilterSelection.prems(2) have "tu \<in> set rows" by blast
  with FilterSelection.IH [OF rows] show ?case by simp
next
  case (ProjectSelection s cols)
  show ?case
  proof (cases cols)
    case Star
    with ProjectSelection show ?thesis by simp
  next
    case (Columns cs)
    with ProjectSelection.prems(1) obtain rows where
      tr: "traverse (\<lambda>tuple. traverse (\<lambda>c. evalExpr d (columnsOf d s) tuple (sc_expr c)) cs)
             rows = Inr ts"
      by (auto split: sum.splits)
    from traverse_all [OF tr ProjectSelection.prems(2)] obtain b where
      "traverse (\<lambda>c. evalExpr d (columnsOf d s) b (sc_expr c)) cs = Inr tu" by blast
    then have "length tu = length cs" by (rule traverse_length)
    with Columns show ?thesis by simp
  qed
qed

lemma star_row_names:
  assumes "rowsOf d (ProjectSelection (FilterSelection s w) Star) = Inr rows"
    and "r \<in> set rows"
  shows "map fst r = map col_name (columnsOf d s)"
proof -
  let ?s = "ProjectSelection (FilterSelection s w) Star"
  from assms obtain tuples where en: "enumerate d ?s = Inr tuples"
    and rows: "rows = map (\<lambda>tuple. zip (map col_name (columnsOf d ?s)) tuple) tuples"
    by (auto simp: rowsOf_def split: sum.splits)
  from assms(2) rows obtain tuple where tu: "tuple \<in> set tuples"
    and r: "r = zip (map col_name (columnsOf d s)) tuple"
    by auto
  from enumerate_length [OF en tu] have "length tuple = length (columnsOf d s)" by simp
  with r show ?thesis by simp
qed

text \<open>
  Claim C1, as amended. Let a SELECT have a FROM list with a RIGHT JOIN entry \<open>f\<close>, after the
  entries \<open>fs\<close> and before the entries \<open>gs\<close>, and let \<open>t\<close> be the selection built from \<open>fs\<close> and
  \<open>tb\<close> the table of \<open>f\<close>. Then
  \<^item> the selection built for \<open>f\<close> is the join of \<open>tb\<close>'s selection, in the first place, with
    \<open>t\<close>, in the second, with the inner-join flag false, and the loop goes on from it;
  \<^item> that is what a LEFT JOIN builds when the two operands change places, and it differs
    from what an INNER JOIN builds;
  \<^item> the rows returned are those of the selection the loop ends with, after \<^verbatim>\<open>filter\<close> and
    \<^verbatim>\<open>select\<close>;
  \<^item> with a select list, every row returned has exactly the columns of the select list, in
    the order in which the list declares them;
  \<^item> with \<^verbatim>\<open>SELECT *\<close>, every row returned has the columns of the selection the loop ends
    with, and in the join built for \<open>f\<close> the columns of \<open>tb\<close> come first, before those of \<open>t\<close>:
    the exchange of the operands is not undone.
\<close>

theorem right_join_is_swapped_left_join:
  assumes "sel_type p = ''select''" and "sel_from p = Some (fs @ f # gs)"
    and "fromLoop db None {} fs = Inr (Some t)"
    and "from_table f = Some name" and "name \<noteq> []" and "db name = Some tb"
    and "from_join f = Some ''RIGHT JOIN''"
  shows "fromLoop db None {} (fs @ f # gs) =
           fromLoop db
             (Some (JoinSelection (TableSelection tb (from_as f)) t (from_on f) False)) {} gs
    \<and> joinSwitch t (TableSelection tb (from_as f)) f =
        Inr (JoinSelection (TableSelection tb (from_as f)) t (from_on f) False)
    \<and> joinSwitch t (TableSelection tb (from_as f)) f =
        joinSwitch (TableSelection tb (from_as f)) t (f\<lparr>from_join := Some ''LEFT JOIN''\<rparr>)
    \<and> joinSwitch t (TableSelection tb (from_as f)) f \<noteq>
        joinSwitch t (TableSelection tb (from_as f)) (f\<lparr>from_join := Some ''INNER JOIN''\<rparr>)
    \<and> executeSelect d db p =
        (case fromLoop db
                (Some (JoinSelection (TableSelection tb (from_as f)) t (from_on f) False)) {} gs of
           Inl e \<Rightarrow> Inl e
         | Inr None \<Rightarrow> Inl TypeError
         | Inr (Some t') \<Rightarrow> finishSelect d p t')
    \<and> (\<forall>cs rows. sel_columns p = Columns cs \<longrightarrow> executeSelect d db p = Inr rows \<longrightarrow>
          (\<forall>r\<in>set rows. map fst r = map (outName d) cs))
    \<and> (\<forall>rows t'. sel_columns p = Star \<longrightarrow>
          fromLoop db
            (Some (JoinSelection (TableSelection tb (from_as f)) t (from_on f) False)) {} gs
            = Inr (Some t') \<longrightarrow>
          executeSelect d db p = Inr rows \<longrightarrow>
          (\<forall>r\<in>set rows. map fst r = map col_name (columnsOf d t')))
    \<and> map col_name
         (columnsOf d (JoinSelection (TableSelection tb (from_as f)) t (from_on f) False))
       = map fld_id (tbl_fields tb) @ map col_name (columnsOf d t)"
proof -
  let ?newT = "TableSelection tb (from_as f)"
  let ?J = "JoinSelection ?newT t (from_on f) False"
  have sw: "joinSwitch t ?newT f = Inr ?J"
    using assms(7) by (simp add: joinSwitch_def)
  have plan: "fromLoop db None {} (fs @ f # gs) = fromLoop db (Some ?J) {} gs"
    using assms(3-6) sw by (simp add: fromLoop_append getTable_def)
  have left: "joinSwitch ?newT t (f\<lparr>from_join := Some ''LEFT JOIN''\<rparr>) = Inr ?J"
    by (simp add: joinSwitch_def)
  have inner: "joinSwitch t ?newT (f\<lparr>from_join := Some ''INNER JOIN''\<rparr>)
      = Inr (JoinSelection t ?newT (from_on f) True)"
    by (simp add: joinSwitch_def)
  have ex: "executeSelect d db p =
        (case fromLoop db (Some ?J) {} gs of
           Inl e \<Rightarrow> Inl e
         | Inr None \<Rightarrow> Inl TypeError
         | Inr (Some t') \<Rightarrow> finishSelect d p t')"
    using assms(1,2) plan by (simp add: executeSelect_def)
  have names: "\<forall>cs rows. sel_columns p = Columns cs \<longrightarrow> executeSelect d db p = Inr rows \<longrightarrow>
          (\<forall>r\<in>set rows. map fst r = map (outName d) cs)"
  proof (intro allI impI ballI)
    fix cs rows r
    assume c: "sel_columns p = Columns cs" and e: "executeSelect d db p = Inr rows"
      and r: "r \<in> set rows"
    from e obtain t' where "finishSelect d p t' = Inr rows"
      unfolding ex by (auto split: sum.splits option.splits)
    with c have "rowsOf d (ProjectSelection (FilterSelection t' (sel_where p)) (Columns cs))
        = Inr rows"
      by (simp add: finishSelect_def)
    then show "map fst r = map (outName d) cs" using r by (rule project_row_names)
  qed
  have star: "\<forall>rows t'. sel_columns p = Star \<longrightarrow> fromLoop db (Some ?J) {} gs = Inr (Some t') \<longrightarrow>
          executeSelect d db p = Inr rows \<longrightarrow>
          (\<forall>r\<in>set rows. map fst r = map col_name (columnsOf d t'))"
  proof (intro allI impI ballI)
    fix rows t' r
    assume c: "sel_columns p = Star" and l: "fromLoop db (Some ?J) {} gs = Inr (Some t')"
      and e: "executeSelect d db p = Inr rows" and r: "r \<in> set rows"
    from e l have "finishSelect d p t' = Inr rows" unfolding ex by simp
    with c have "rowsOf d (ProjectSelection (FilterSelection t' (sel_where p)) Star) = Inr rows"
      by (simp add: finishSelect_def)
    then show "map fst r = map col_name (columnsOf d t')" using r by (rule star_row_names)
  qed
  have cols: "map col_name (columnsOf d ?J)
      = map fld_id (tbl_fields tb) @ map col_name (columnsOf d t)"
    by (simp add: comp_def)
  show ?thesis using plan sw left inner ex names star cols by simp
qed

text \<open>
  \<^verbatim>\<open>select test.val as left_val, o.val2 from test right join other o on test.val = o.val2\<close>:
  the row of \<^verbatim>\<open>other\<close> without a match is kept, with NULL for the column of \<^verbatim>\<open>test\<close>, and the
  columns come in the order of the select list. With \<^verbatim>\<open>select *\<close> the column of \<^verbatim>\<open>other\<close>
  comes first.
\<close>

theorem right_join_is_swapped_left_join_witness:
  "fromLoop testDb None {}
     ([fromTable ''test'' None None None] @
      fromTable ''other'' (Some ''o'') (Some ''RIGHT JOIN'')
         (Some (Comparison OpEq (ColumnRef (Some ''test'') ''val'')
                 (ColumnRef (Some ''o'') ''val2''))) # [])
   = Inr (Some (JoinSelection (TableSelection otherTable (Some ''o''))
                 (TableSelection testTable None)
                 (Some (Comparison OpEq (ColumnRef (Some ''test'') ''val'')
                         (ColumnRef (Some ''o'') ''val2'')))
                 False))
   \<and> executeSelect simpleDeps testDb
       (selectFrom
          (Columns [\<lparr>sc_expr = ColumnRef (Some ''test'') ''val'', sc_as = Some ''left_val''\<rparr>,
                    \<lparr>sc_expr = ColumnRef (Some ''o'') ''val2'', sc_as = None\<rparr>])
          ([fromTable ''test'' None None None] @
           fromTable ''other'' (Some ''o'') (Some ''RIGHT JOIN'')
              (Some (Comparison OpEq (ColumnRef (Some ''test'') ''val'')
                      (ColumnRef (Some ''o'') ''val2''))) # []))
     = Inr [[(''left_val'', TextV ''a''), (''val2'', TextV ''a'')],
            [(''left_val'', Null), (''val2'', TextV ''c'')]]
   \<and> executeSelect simpleDeps testDb
       (selectFrom Star
          ([fromTable ''test'' None None None] @
           fromTable ''other'' (Some ''o'') (Some ''RIGHT JOIN'')
              (Some (Comparison OpEq (ColumnRef (Some ''test'') ''val'')
                      (ColumnRef (Some ''o'') ''val2''))) # []))
     = Inr [[(''val2'', TextV ''a''), (''val'', TextV ''a'')],
            [(''val2'', TextV ''c''), (''val'', Null)]]"
proof -
  let ?on = "Comparison OpEq (ColumnRef (Some ''test'') ''val'') (ColumnRef (Some ''o'') ''val2'')"
  let ?f = "fromTable ''other'' (Some ''o'') (Some ''RIGHT JOIN'') (Some ?on)"
  let ?fs = "[fromTable ''test'' None None None]"
  let ?p = "selectFrom
          (Columns [\<lparr>sc_expr = ColumnRef (Some ''test'') ''val'', sc_as = Some ''left_val''\<rparr>,
                    \<lparr>sc_expr = ColumnRef (Some ''o'') ''val2'', sc_as = None\<rparr>])
          (?fs @ ?f # [])"
  let ?q = "selectFrom Star (?fs @ ?f # [])"
  let ?J = "JoinSelection (TableSelection otherTable (Some ''o''))
                  (TableSelection testTable None) (Some ?on) False"
  have h1: "sel_type ?p = ''select''" by (simp add: selectFrom_def)
  have h2: "sel_from ?p = Some (?fs @ ?f # [])" by (simp add: selectFrom_def)
  have k1: "sel_type ?q = ''select''" by (simp add: selectFrom_def)
  have k2: "sel_from ?q = Some (?fs @ ?f # [])" by (simp add: selectFrom_def)
  have h3: "fromLoop testDb None {} ?fs = Inr (Some (TableSelection testTable None))"
    by (simp add: fromTable_def testDb_def getTable_def)
  have h4: "from_table ?f = Some ''other''" by (simp add: fromTable_def)
  have h5: "''other'' \<noteq> []" by simp
  have h6: "testDb ''other'' = Some otherTable" by (simp add: testDb_def)
  have h7: "from_join ?f = Some ''RIGHT JOIN''" by (simp add: fromTable_def)
  note inst = right_join_is_swapped_left_join [OF h1 h2 h3 h4 h5 h6 h7, of simpleDeps]
  note instq = right_join_is_swapped_left_join [OF k1 k2 h3 h4 h5 h6 h7, of simpleDeps]
  have plan: "fromLoop testDb None {} (?fs @ ?f # []) = Inr (Some ?J)"
    using inst by (simp add: fromTable_def)
  have "executeSelect simpleDeps testDb ?p = finishSelect simpleDeps ?p ?J"
    using inst by (simp add: fromTable_def)
  also have "\<dots> = Inr [[(''left_val'', TextV ''a''), (''val2'', TextV ''a'')],
            [(''left_val'', Null), (''val2'', TextV ''c'')]]"
    by (simp add: finishSelect_def rowsOf_def selectFrom_def holds_def joinRow_def
        simpleDeps_def outName_def testTable_def otherTable_def compareNat_def)
  finally have listed: "executeSelect simpleDeps testDb ?p =
      Inr [[(''left_val'', TextV ''a''), (''val2'', TextV ''a'')],
           [(''left_val'', Null), (''val2'', TextV ''c'')]]" .
  have "executeSelect simpleDeps testDb ?q = finishSelect simpleDeps ?q ?J"
    using instq by (simp add: fromTable_def)
  also have "\<dots> = Inr [[(''val2'', TextV ''a''), (''val'', TextV ''a'')],
            [(''val2'', TextV ''c''), (''val'', Null)]]"
    by (simp add: finishSelect_def rowsOf_def selectFrom_def holds_def joinRow_def
        simpleDeps_def testTable_def otherTable_def compareNat_def)
  finally show ?thesis using plan listed by simp
qed

text \<open>
  Claim C1 as stated fails for \<^verbatim>\<open>SELECT *\<close>: \<^verbatim>\<open>select * from test right join other o on
  test.val = o.val2\<close> declares \<^verbatim>\<open>test\<close> before \<^verbatim>\<open>other\<close>, and the LEFT JOIN of the same FROM list
  returns the column \<^verbatim>\<open>val\<close> of \<^verbatim>\<open>test\<close> before the column \<^verbatim>\<open>val2\<close> of \<^verbatim>\<open>other\<close>; the RIGHT JOIN
  returns \<^verbatim>\<open>val2\<close> before \<^verbatim>\<open>val\<close>.
\<close>

theorem right_join_star_order_counterexample:
  "map_sum id (map (map fst))
     (executeSelect simpleDeps testDb
        (selectFrom Star
           [fromTable ''test'' None None None,
            fromTable ''other'' (Some ''o'') (Some ''RIGHT JOIN'')
              (Some (Comparison OpEq (ColumnRef (Some ''test'') ''val'')
                      (ColumnRef (Some ''o'') ''val2'')))]))
   = Inr [[''val2'', ''val''], [''val2'', ''val'']]
   \<and> map_sum id (map (map fst))
     (executeSelect simpleDeps testDb
        (selectFrom Star
           [fromTable ''test'' None None None,
            fromTable ''other'' (Some ''o'') (Some ''LEFT JOIN'')
              (Some (Comparison OpEq (ColumnRef (Some ''test'') ''val'')
                      (ColumnRef (Some ''o'') ''val2'')))]))
   = Inr [[''val'', ''val2''], [''val'', ''val2''], [''val'', ''val2'']]"
  by (simp add: executeSelect_def selectFrom_def fromTable_def testDb_def testTable_def
      otherTable_def getTable_def finishSelect_def rowsOf_def holds_def joinSwitch_def
      joinRow_def simpleDeps_def compareNat_def)

section \<open>INSERT\<close>





section \<open>Aliases in the FROM list\<close>

text \<open>
  The set of aliases is empty when the loop starts and stays empty: the check of line 166
  never fires, and the loop never raises the error of line 167, nor a QueryError.
\<close>

lemma fromLoop_no_QueryError: "fromLoop db t aliases fs \<noteq> Inl (QueryError m)"
  by (induction fs arbitrary: t)
     (auto simp: getTable_def joinSwitch_def split: option.splits sum.splits if_splits)

lemma fromLoop_no_alias_error: "fromLoop db t {} fs \<noteq> Inl (Error m)"
  by (induction fs arbitrary: t)
     (auto simp: getTable_def joinSwitch_def split: option.splits sum.splits if_splits)

text \<open>
  Claim C8 against \<^verbatim>\<open>executeSelect\<close>.
  \<^verbatim>\<open>select * from test x inner join test x on x.val = 'a'\<close> uses the alias \<^verbatim>\<open>x\<close> for two
  entries of its FROM list. The statement is not rejected: both tables are read, the join is
  built and enumerated, and three rows are returned. The loop over the FROM list, started
  with the empty set of aliases as \<^verbatim>\<open>executeSelect\<close> starts it, raises neither the error
  \<^verbatim>\<open>Table name "x" specified more than once\<close> nor a QueryError, whatever the FROM list.
\<close>

theorem duplicate_alias_is_not_rejected:
  "executeSelect simpleDeps testDb
     (selectFrom Star
        [fromTable ''test'' (Some ''x'') None None,
         fromTable ''test'' (Some ''x'') (Some ''INNER JOIN'')
           (Some (Comparison OpEq (ColumnRef (Some ''x'') ''val'') (Literal (TextV ''a''))))])
   = Inr [[(''val'', TextV ''a''), (''val'', TextV ''b'')],
          [(''val'', TextV ''a''), (''val'', TextV ''a'')],
          [(''val'', TextV ''a''), (''val'', Null)]]
   \<and> fromLoop db t {} fs \<noteq> Inl (Error m)
   \<and> fromLoop db t {} fs \<noteq> Inl (QueryError m)"
  by (simp add: executeSelect_def selectFrom_def fromTable_def testDb_def testTable_def
      getTable_def finishSelect_def rowsOf_def holds_def joinSwitch_def joinRow_def
      simpleDeps_def compareNat_def fromLoop_no_alias_error fromLoop_no_QueryError)

section \<open>ORDER BY\<close>

lemma executeSelect_ignores_orderby:
  "executeSelect d db (p\<lparr>sel_orderby := ob\<rparr>) = executeSelect d db p"
  by (simp add: executeSelect_def finishSelect_def split: option.splits sum.splits)

text \<open>
  Claim C6 against \<^verbatim>\<open>executeSelect\<close>. The test \<^verbatim>\<open>simple order by asc\<close> runs
  \<^verbatim>\<open>create table test(val text); insert into test values ('b'), ('a'), (null);
  select * from test order by val\<close> and expects \<^verbatim>\<open>a, b, null\<close>. \<^verbatim>\<open>Query._query\<close> runs the three
  statements and returns the rows in the order of insertion, \<^verbatim>\<open>b, a, null\<close>: no line of
  \<^verbatim>\<open>executeSelect\<close> reads the ORDER BY clause.
\<close>

theorem order_by_is_not_applied:
  "query simpleDeps Map.empty
     [CreateTable
        \<lparr>ct_table = [''test''],
         ct_create_definitions =
           [\<lparr>cd_resource = ''column'',
             cd_column = \<lparr>cr_type = ''column_ref'', cr_column = ''val''\<rparr>,
             cd_unique_or_primary = None,
             cd_definition = \<lparr>def_dataType = ''TEXT'', def_length = None, def_suffix = None\<rparr>\<rparr>]\<rparr>,
      Insert
        \<lparr>ins_type = ''insert'', ins_table = Some [\<lparr>ref_table = Some ''test''\<rparr>],
         ins_columns = None,
         ins_values = [\<lparr>val_type = ''expr_list'', val_value = [Literal (TextV ''b'')]\<rparr>,
                       \<lparr>val_type = ''expr_list'', val_value = [Literal (TextV ''a'')]\<rparr>,
                       \<lparr>val_type = ''expr_list'', val_value = [Literal Null]\<rparr>]\<rparr>,
      Select
        ((selectFrom Star [fromTable ''test'' None None None])
           \<lparr>sel_orderby := Some [\<lparr>ob_expr = ColumnRef None ''val'', ob_type = Some ''ASC'',
                                  ob_nulls = None\<rparr>]\<rparr>)]
   = ([''test'' \<mapsto> testTable],
      Inr (Rows [[(''val'', TextV ''b'')], [(''val'', TextV ''a'')], [(''val'', Null)]]))"
  by (simp add: query_def executeCreateTable_def fieldOf_def uniqueOrPrimary_def
      typeOfDefinition_def declareTable_def executeInsert_def getTable_def insert_row_def
      simpleDeps_def executeSelect_def selectFrom_def fromTable_def finishSelect_def rowsOf_def
      holds_def testTable_def)

section \<open>Transactions: the chain of ancestors\<close>

lemma getTx_setTx:
  "getTx (setTx w k t) j = (if j = k \<and> k < length (txns w) then Some t else getTx w j)"
  by (auto simp: getTx_def setTx_def)

lemma length_setTx [simp]: "length (txns (setTx w k t)) = length (txns w)"
  by (simp add: setTx_def)

lemma registry_setTx [simp]: "registry (setTx w k t) = registry w"
  by (simp add: setTx_def)

lemma getTx_Some_length: "getTx w h = Some t \<Longrightarrow> h < length (txns w)"
  by (auto simp: getTx_def split: if_splits)

lemma ancestors_le: "a \<in> set (ancestors w h) \<Longrightarrow> a \<le> h"
proof (induction h arbitrary: a rule: less_induct)
  case (less h)
  show ?case
  proof (cases "getTx w h")
    case None
    with less.prems show ?thesis by (simp add: ancestors.simps [of w h])
  next
    case (Some t)
    show ?thesis
    proof (cases "tx_parent t")
      case None
      with Some less.prems show ?thesis by (simp add: ancestors.simps [of w h])
    next
      case (Some p)
      show ?thesis
      proof (cases "p < h")
        case True
        with \<open>getTx w h = Some t\<close> Some less.prems
        have "a = h \<or> a \<in> set (ancestors w p)" by (simp add: ancestors.simps [of w h])
        then show ?thesis using less.IH [OF True] True by fastforce
      next
        case False
        with \<open>getTx w h = Some t\<close> Some less.prems show ?thesis
          by (simp add: ancestors.simps [of w h])
      qed
    qed
  qed
qed

text \<open>The chain and its openness depend on the parents and states along it only.\<close>

lemma ancestors_cong:
  "(\<And>k. k \<le> h \<Longrightarrow> map_option tx_parent (getTx w' k) = map_option tx_parent (getTx w k))
   \<Longrightarrow> ancestors w' h = ancestors w h"
proof (induction h rule: less_induct)
  case (less h)
  have eq: "map_option tx_parent (getTx w' h) = map_option tx_parent (getTx w h)"
    using less.prems by simp
  show ?case
  proof (cases "getTx w h")
    case None
    with eq have "getTx w' h = None" by simp
    with None show ?thesis by (simp add: ancestors.simps [of _ h])
  next
    case (Some t)
    with eq obtain t' where t': "getTx w' h = Some t'" "tx_parent t' = tx_parent t" by auto
    show ?thesis
    proof (cases "tx_parent t")
      case None
      with Some t' show ?thesis by (simp add: ancestors.simps [of _ h])
    next
      case (Some p)
      show ?thesis
      proof (cases "p < h")
        case True
        have "ancestors w' p = ancestors w p"
          by (rule less.IH [OF True]) (use True less.prems in simp)
        with True Some \<open>getTx w h = Some t\<close> t' show ?thesis
          by (simp add: ancestors.simps [of _ h])
      next
        case False
        with Some \<open>getTx w h = Some t\<close> t' show ?thesis by (simp add: ancestors.simps [of _ h])
      qed
    qed
  qed
qed

lemma openChain_cong:
  "(\<And>k. k \<le> h \<Longrightarrow> map_option tx_parent (getTx w' k) = map_option tx_parent (getTx w k)
        \<and> map_option tx_state (getTx w' k) = map_option tx_state (getTx w k))
   \<Longrightarrow> openChain w' h = openChain w h"
proof (induction h rule: less_induct)
  case (less h)
  have eq: "map_option tx_parent (getTx w' h) = map_option tx_parent (getTx w h)"
    "map_option tx_state (getTx w' h) = map_option tx_state (getTx w h)"
    using less.prems by simp_all
  show ?case
  proof (cases "getTx w h")
    case None
    with eq have "getTx w' h = None" by simp
    with None show ?thesis by (simp add: openChain.simps [of _ h])
  next
    case (Some t)
    with eq obtain t' where t': "getTx w' h = Some t'" "tx_parent t' = tx_parent t"
      "tx_state t' = tx_state t" by auto
    show ?thesis
    proof (cases "tx_parent t")
      case None
      with Some t' show ?thesis by (simp add: openChain.simps [of _ h])
    next
      case (Some p)
      show ?thesis
      proof (cases "p < h")
        case True
        have "openChain w' p = openChain w p"
          by (rule less.IH [OF True]) (use True less.prems in simp)
        with True Some \<open>getTx w h = Some t\<close> t' show ?thesis
          by (simp add: openChain.simps [of _ h])
      next
        case False
        with Some \<open>getTx w h = Some t\<close> t' show ?thesis by (simp add: openChain.simps [of _ h])
      qed
    qed
  qed
qed

lemma openChain_usable:
  "openChain w h \<Longrightarrow> \<exists>t. getTx w h = Some t \<and> usable t"
  by (subst (asm) openChain.simps)
     (auto simp: usable_def split: option.splits if_splits intro: txstate.exhaust)

lemma ancestors_head:
  assumes "getTx w h = Some t"
  shows "\<exists>as. ancestors w h = h # as \<and> (\<forall>a\<in>set as. a < h)"
proof (cases "tx_parent t")
  case None
  with assms show ?thesis by (simp add: ancestors.simps [of w h])
next
  case (Some p)
  show ?thesis
  proof (cases "p < h")
    case True
    with Some assms have "ancestors w h = h # ancestors w p" by (simp add: ancestors.simps [of w h])
    moreover have "\<forall>a\<in>set (ancestors w p). a < h" using ancestors_le [of _ w p] True by fastforce
    ultimately show ?thesis by blast
  next
    case False
    with Some assms show ?thesis by (simp add: ancestors.simps [of w h])
  qed
qed

lemma rootOf_root:
  "getTx w h = Some t \<Longrightarrow> tx_parent t = None \<Longrightarrow> rootOf w h = h"
  by (simp add: rootOf_def ancestors.simps [of w h])

lemma rootOf_step:
  assumes "getTx w h = Some t" and "tx_parent t = Some p" and "p < h" and "getTx w p = Some pt"
  shows "rootOf w h = rootOf w p" and "ancestors w h = h # ancestors w p"
proof -
  show a: "ancestors w h = h # ancestors w p"
    using assms by (simp add: ancestors.simps [of w h])
  from ancestors_head [OF assms(4)] obtain as where "ancestors w p = p # as" by blast
  with a show "rootOf w h = rootOf w p" by (simp add: rootOf_def)
qed

lemma rootOf_in_ancestors:
  "getTx w h = Some t \<Longrightarrow> rootOf w h \<in> set (ancestors w h)"
  using ancestors_head [of w h t] by (auto simp: rootOf_def)

section \<open>fullCommit on an open chain\<close>

text \<open>
  On an open chain \<^verbatim>\<open>fullCommit\<close> succeeds and returns the root. Every transaction of the
  chain is committed, the changes pending along the chain are the changes of the root, in the
  order root first, the other transactions of the chain have nothing pending, and nothing
  else is touched.
\<close>

lemma fullCommit_openChain:
  "openChain w h \<Longrightarrow>
   \<exists>w'. fullCommit w h = Inr (w', rootOf w h)
     \<and> length (txns w') = length (txns w)
     \<and> registry w' = registry w
     \<and> (\<forall>k. map_option tx_parent (getTx w' k) = map_option tx_parent (getTx w k))
     \<and> (\<forall>a\<in>set (ancestors w h). stateOf w' a = Some Committed)
     \<and> pendingOf w' (rootOf w h) = visible w h
     \<and> (\<forall>a\<in>set (ancestors w h). a \<noteq> rootOf w h \<longrightarrow> pendingOf w' a = [])
     \<and> (\<forall>k. k \<notin> set (ancestors w h) \<longrightarrow> getTx w' k = getTx w k)
     \<and> map_option tx_parent (getTx w (rootOf w h)) = Some None"
proof (induction h arbitrary: w rule: less_induct)
  case (less h)
  from less.prems obtain t where t: "getTx w h = Some t"
    by (subst (asm) openChain.simps) (auto split: option.splits)
  have hlen: "h < length (txns w)" using t by (rule getTx_Some_length)
  show ?case
  proof (cases "tx_parent t")
    case None
    have root: "rootOf w h = h" using t None by (rule rootOf_root)
    have anc: "ancestors w h = [h]" using t None by (simp add: ancestors.simps [of w h])
    have vis: "visible w h = tx_pending t" using t anc by (simp add: visible_def pendingOf_def)
    from less.prems t None have st: "tx_state t \<noteq> RolledBack"
      by (subst (asm) openChain.simps) simp
    show ?thesis
    proof (cases "tx_state t = Committed")
      case True
      have "fullCommit w h = Inr (w, h)" using t None True by (simp add: fullCommit.simps [of w h])
      then show ?thesis using root anc vis t None True by (simp add: stateOf_def pendingOf_def)
    next
      case False
      with st have op: "tx_state t = Open" by (cases "tx_state t") auto
      let ?w' = "setTx w h (t\<lparr>tx_state := Committed\<rparr>)"
      have "fullCommit w h = Inr (?w', h)"
        using t None op by (simp add: fullCommit.simps [of w h] commit_def)
      then show ?thesis using root anc vis t None hlen
        by (auto simp: stateOf_def pendingOf_def getTx_setTx)
    qed
  next
    case (Some p)
    from less.prems t Some have op: "tx_state t = Open" and ph: "p < h" and chp: "openChain w p"
      by (subst (asm) openChain.simps, simp split: if_splits)+
    from openChain_usable [OF chp] obtain pt where pt: "getTx w p = Some pt" "usable pt" by blast
    have plen: "p < length (txns w)" using pt(1) by (rule getTx_Some_length)
    define pt' where "pt' = pt\<lparr>tx_pending := tx_pending pt @ tx_pending t\<rparr>"
    define t' where "t' = t\<lparr>tx_pending := [], tx_state := Committed\<rparr>"
    define w1 where "w1 = setTx (setTx w p pt') h t'"
    have com: "commit w h = Inr (w1, p)"
      using t Some op pt by (simp add: commit_def w1_def pt'_def t'_def)
    have g1: "getTx w1 k = (if k = h then Some t' else if k = p then Some pt' else getTx w k)" for k
      using hlen plen by (simp add: w1_def getTx_setTx)
    have fc: "fullCommit w h = fullCommit w1 p"
      using t Some ph com by (simp add: fullCommit.simps [of w h])
    have same: "map_option tx_parent (getTx w1 k) = map_option tx_parent (getTx w k)" for k
      using t pt by (simp add: g1 pt'_def t'_def)
    have same_st: "k \<le> p \<Longrightarrow> map_option tx_state (getTx w1 k) = map_option tx_state (getTx w k)"
      for k using ph pt by (auto simp: g1 pt'_def)
    have anc1: "ancestors w1 p = ancestors w p"
      by (rule ancestors_cong) (simp add: same)
    have ch1: "openChain w1 p"
      using chp openChain_cong [of p w1 w] same same_st by blast
    have root1: "rootOf w1 p = rootOf w p" by (simp add: rootOf_def anc1)
    have rooth: "rootOf w h = rootOf w p" and anch: "ancestors w h = h # ancestors w p"
      using rootOf_step [OF t Some ph pt(1)] by simp_all
    from ancestors_head [OF pt(1)] obtain as where
      as: "ancestors w p = p # as" "\<forall>a\<in>set as. a < p"
      by blast
    have pend_as: "map (pendingOf w1) (rev as) = map (pendingOf w) (rev as)"
      using as(2) ph by (auto simp: pendingOf_def g1)
    have pend_p: "pendingOf w1 p = pendingOf w p @ pendingOf w h"
      using ph t pt by (simp add: pendingOf_def g1 pt'_def)
    have vis1: "visible w1 p = visible w h"
      by (simp add: visible_def anc1 anch as(1) pend_as pend_p)
    have hnot: "h \<notin> set (ancestors w p)" using ancestors_le [of h w p] ph by auto
    have pin: "p \<in> set (ancestors w p)" using as(1) by simp
    from less.IH [OF ph ch1] obtain w' where w':
      "fullCommit w1 p = Inr (w', rootOf w1 p)"
      "length (txns w') = length (txns w1)"
      "registry w' = registry w1"
      "\<forall>k. map_option tx_parent (getTx w' k) = map_option tx_parent (getTx w1 k)"
      "\<forall>a\<in>set (ancestors w1 p). stateOf w' a = Some Committed"
      "pendingOf w' (rootOf w1 p) = visible w1 p"
      "\<forall>a\<in>set (ancestors w1 p). a \<noteq> rootOf w1 p \<longrightarrow> pendingOf w' a = []"
      "\<forall>k. k \<notin> set (ancestors w1 p) \<longrightarrow> getTx w' k = getTx w1 k"
      "map_option tx_parent (getTx w1 (rootOf w1 p)) = Some None"
      by blast
    have geth: "getTx w' h = Some t'" using w'(8) hnot by (simp add: anc1 g1)
    have c1: "fullCommit w h = Inr (w', rootOf w h)" using fc w'(1) by (simp add: root1 rooth)
    have c2: "length (txns w') = length (txns w)" using w'(2) by (simp add: w1_def)
    have c3: "registry w' = registry w" using w'(3) by (simp add: w1_def)
    have c4: "\<forall>k. map_option tx_parent (getTx w' k) = map_option tx_parent (getTx w k)"
      using w'(4) same by simp
    have c5: "\<forall>a\<in>set (ancestors w h). stateOf w' a = Some Committed"
      using w'(5) geth by (auto simp: anch anc1 stateOf_def t'_def)
    have c6: "pendingOf w' (rootOf w h) = visible w h"
      using w'(6) by (simp add: root1 rooth vis1)
    have c7: "\<forall>a\<in>set (ancestors w h). a \<noteq> rootOf w h \<longrightarrow> pendingOf w' a = []"
      using w'(7) geth by (auto simp: anch anc1 root1 rooth pendingOf_def t'_def)
    have c8: "\<forall>k. k \<notin> set (ancestors w h) \<longrightarrow> getTx w' k = getTx w k"
      using w'(8) pin by (auto simp: anch anc1 g1)
    have c9: "map_option tx_parent (getTx w (rootOf w h)) = Some None"
      using w'(9) same by (simp add: root1 rooth)
    show ?thesis using c1 c2 c3 c4 c5 c6 c7 c8 c9 by blast
  qed
qed

section \<open>The fork after the drop\<close>

text \<open>
  After \<^verbatim>\<open>fullCommit\<close> on an open chain, whatever is done to the registry of schema objects,
  \<^verbatim>\<open>fork\<close> on the root succeeds, and the state it leaves is the one described by
  \<open>committedThenForked\<close>.
\<close>

lemma commit_then_fork:
  assumes ch: "openChain w t"
  shows "\<exists>w1. fullCommit w t = Inr (w1, rootOf w t) \<and> registry w1 = registry w
       \<and> (\<forall>reg. \<exists>w3. fork (w1\<lparr>registry := reg\<rparr>) (rootOf w t)
                         = Inr (w3, length (txns w))
                \<and> registry w3 = reg
                \<and> committedThenForked w t w3 (noData (length (txns w)) ''DROP''))"
proof -
  let ?r = "rootOf w t"
  let ?n = "length (txns w)"
  let ?new = "\<lparr>tx_parent = Some ?r, tx_pending = [], tx_state = Open\<rparr> :: 'a txn"
  from fullCommit_openChain [OF ch] obtain w1 where w1:
    "fullCommit w t = Inr (w1, ?r)"
    "length (txns w1) = ?n"
    "registry w1 = registry w"
    "\<forall>k. map_option tx_parent (getTx w1 k) = map_option tx_parent (getTx w k)"
    "\<forall>a\<in>set (ancestors w t). stateOf w1 a = Some Committed"
    "pendingOf w1 ?r = visible w t"
    "map_option tx_parent (getTx w (rootOf w t)) = Some None"
    by blast
  from openChain_usable [OF ch] obtain tt where tt: "getTx w t = Some tt" by blast
  have rin: "?r \<in> set (ancestors w t)" using tt by (rule rootOf_in_ancestors)
  have tlen: "t < ?n" using tt by (rule getTx_Some_length)
  have alen: "a < ?n" if "a \<in> set (ancestors w t)" for a
    using ancestors_le [OF that] tlen by simp
  have rlen: "?r < ?n" using rin by (rule alen)
  from w1(5) rin have "stateOf w1 ?r = Some Committed" by blast
  moreover from w1(4,7) have "map_option tx_parent (getTx w1 ?r) = Some None" by simp
  ultimately obtain rt where rt: "getTx w1 ?r = Some rt" "tx_state rt = Committed"
    "tx_parent rt = None"
    by (auto simp: stateOf_def)
  have "\<exists>w3. fork (w1\<lparr>registry := reg\<rparr>) ?r = Inr (w3, ?n) \<and> registry w3 = reg
          \<and> committedThenForked w t w3 (noData ?n ''DROP'')" for reg
  proof -
    define w3 where "w3 = w1\<lparr>registry := reg, txns := txns w1 @ [?new]\<rparr>"
    have g3: "getTx w3 k = (if k = ?n then Some ?new else getTx w1 k)" for k
      using w1(2) by (auto simp: w3_def getTx_def nth_append)
    have "getTx (w1\<lparr>registry := reg\<rparr>) ?r = Some rt"
      using rt(1) by (simp add: getTx_def split: if_splits)
    then have fk: "fork (w1\<lparr>registry := reg\<rparr>) ?r = Inr (w3, ?n)"
      using rt(2,3) w1(2) by (simp add: fork_def usable_def w3_def)
    have reg3: "registry w3 = reg" by (simp add: w3_def)
    have new: "getTx w3 ?n = Some ?new" by (simp add: g3)
    have old: "getTx w3 a = getTx w1 a" if "a \<in> set (ancestors w t)" for a
      using alen [OF that] by (simp add: g3)
    have fin: "stateOf w3 a = Some Committed \<and> rollback w3 a = Inl terminalUse
          \<and> commit w3 a = Inl terminalUse" if mem: "a \<in> set (ancestors w t)" for a
    proof -
      from w1(5) mem have "stateOf w1 a = Some Committed" by blast
      then obtain ta where "getTx w3 a = Some ta" "tx_state ta = Committed"
        using old [OF mem] by (auto simp: stateOf_def)
      then show ?thesis by (simp add: stateOf_def rollback_def commit_def)
    qed
    have root3: "getTx w3 ?r = Some rt" using rt(1) old [OF rin] by simp
    have pend: "pendingOf w3 ?r = visible w t"
      using w1(6) old [OF rin] by (simp add: pendingOf_def)
    have anc3: "ancestors w3 ?n = [?n, ?r]"
      using new root3 rt(3) rlen
      by (simp add: ancestors.simps [of w3 ?n] ancestors.simps [of w3 ?r])
    have vis3: "visible w3 ?n = visible w t"
      using pend new by (simp add: visible_def anc3 pendingOf_def)
    have s1: "succeeds (rollback w3 ?n)" using new by (simp add: rollback_def succeeds_def)
    have s2: "succeeds (commit w3 ?n)"
      using new root3 rt by (simp add: commit_def succeeds_def usable_def)
    have s3: "succeeds (fork w3 ?n)" using new by (simp add: fork_def succeeds_def usable_def)
    have "committedThenForked w t w3 (noData ?n ''DROP'')"
      using new fin pend vis3 s1 s2 s3
      by (simp add: committedThenForked_def noData_def list_all_iff)
    with fk reg3 show ?thesis by blast
  qed
  with w1(1,3) show ?thesis by blast
qed

lemma dropIndexOnTable_registry:
  "dropIndexOnTable w h tb n = w\<lparr>registry := registry (dropIndexOnTable w h tb n)\<rparr>"
  by (simp add: dropIndexOnTable_def)

lemma dropSeq_registry:
  "dropSeq w h n = w\<lparr>registry := registry (dropSeq w h n)\<rparr>"
  by (simp add: dropSeq_def)

text \<open>What the two executors do on an open chain, whatever was planned.\<close>

lemma executeDropIndex_outcome:
  assumes "openChain w t"
  shows "\<exists>w1 w'. fullCommit w t = Inr (w1, rootOf w t) \<and> registry w1 = registry w
      \<and> executeDropIndex self w t = Inr (w', noData (length (txns w)) ''DROP'')
      \<and> committedThenForked w t w' (noData (length (txns w)) ''DROP'')
      \<and> registry w' =
          (case di_idx self of
             None \<Rightarrow> registry w
           | Some idx \<Rightarrow>
              registry (dropIndexOnTable w1 (rootOf w t) (ni_onTable idx) (ni_name idx)))"
proof -
  from commit_then_fork [OF assms] obtain w1 where w1:
    "fullCommit w t = Inr (w1, rootOf w t)" "registry w1 = registry w"
    and fk: "\<And>reg. \<exists>w3. fork (w1\<lparr>registry := reg\<rparr>) (rootOf w t) = Inr (w3, length (txns w))
                \<and> registry w3 = reg
                \<and> committedThenForked w t w3 (noData (length (txns w)) ''DROP'')"
    by blast
  define w2 where "w2 = (case di_idx self of
      None \<Rightarrow> w1
    | Some idx \<Rightarrow> dropIndexOnTable w1 (rootOf w t) (ni_onTable idx) (ni_name idx))"
  have w2: "w2 = w1\<lparr>registry := registry w2\<rparr>"
    unfolding w2_def
    by (cases "di_idx self") (simp, simp add: dropIndexOnTable_registry [symmetric])
  from fk [of "registry w2"] obtain w3 where w3:
    "fork (w1\<lparr>registry := registry w2\<rparr>) (rootOf w t) = Inr (w3, length (txns w))"
    "registry w3 = registry w2"
    "committedThenForked w t w3 (noData (length (txns w)) ''DROP'')"
    by blast
  have "executeDropIndex self w t = Inr (w3, noData (length (txns w)) ''DROP'')"
    using w1(1) w3(1) w2 by (simp add: executeDropIndex_def w2_def [symmetric])
  moreover have "registry w3 =
      (case di_idx self of
         None \<Rightarrow> registry w
       | Some idx \<Rightarrow> registry (dropIndexOnTable w1 (rootOf w t) (ni_onTable idx) (ni_name idx)))"
    using w3(2) w1(2) by (simp add: w2_def split: option.splits)
  ultimately show ?thesis using w1 w3(3) by blast
qed

lemma executeDropSequence_outcome:
  assumes "openChain w t"
  shows "\<exists>w1 w'. fullCommit w t = Inr (w1, rootOf w t) \<and> registry w1 = registry w
      \<and> executeDropSequence self w t = Inr (w', noData (length (txns w)) ''DROP'')
      \<and> committedThenForked w t w' (noData (length (txns w)) ''DROP'')
      \<and> registry w' =
          (case dsq_seq self of
             None \<Rightarrow> registry w
           | Some sq \<Rightarrow> registry (dropSeq w1 (rootOf w t) sq))"
proof -
  from commit_then_fork [OF assms] obtain w1 where w1:
    "fullCommit w t = Inr (w1, rootOf w t)" "registry w1 = registry w"
    and fk: "\<And>reg. \<exists>w3. fork (w1\<lparr>registry := reg\<rparr>) (rootOf w t) = Inr (w3, length (txns w))
                \<and> registry w3 = reg
                \<and> committedThenForked w t w3 (noData (length (txns w)) ''DROP'')"
    by blast
  define w2 where "w2 = (case dsq_seq self of
      None \<Rightarrow> w1
    | Some sq \<Rightarrow> dropSeq w1 (rootOf w t) sq)"
  have w2: "w2 = w1\<lparr>registry := registry w2\<rparr>"
    unfolding w2_def
    by (cases "dsq_seq self") (simp, simp add: dropSeq_registry [symmetric])
  from fk [of "registry w2"] obtain w3 where w3:
    "fork (w1\<lparr>registry := registry w2\<rparr>) (rootOf w t) = Inr (w3, length (txns w))"
    "registry w3 = registry w2"
    "committedThenForked w t w3 (noData (length (txns w)) ''DROP'')"
    by blast
  have "executeDropSequence self w t = Inr (w3, noData (length (txns w)) ''DROP'')"
    using w1(1) w3(1) w2 by (simp add: executeDropSequence_def w2_def [symmetric])
  moreover have "registry w3 =
      (case dsq_seq self of
         None \<Rightarrow> registry w
       | Some sq \<Rightarrow> registry (dropSeq w1 (rootOf w t) sq))"
    using w3(2) w1(2) by (simp add: w2_def split: option.splits)
  ultimately show ?thesis using w1 w3(3) by blast
qed

section \<open>DROP INDEX and DROP SEQUENCE\<close>

lemma exampleWorld_ancestors: "ancestors exampleWorld 2 = [2, 1, 0]"
  by (simp add: ancestors.simps exampleWorld_def getTx_def)

lemma exampleWorld_openChain: "openChain exampleWorld 2"
  by (simp add: openChain.simps exampleWorld_def getTx_def)

lemma exampleWorld_rootOf: "rootOf exampleWorld 2 = 0"
  by (simp add: rootOf_def exampleWorld_ancestors)

lemma exampleWorld_visible:
  "visible exampleWorld 2 = [''insert a'', ''insert b'', ''insert c'']"
  unfolding visible_def exampleWorld_ancestors
  by (simp add: pendingOf_def getTx_def exampleWorld_def)

lemma exampleWorld_length: "length (txns exampleWorld) = 3"
  by (simp add: exampleWorld_def)

text \<open>
  Claim C2. Let \<^verbatim>\<open>execute\<close> of a DROP INDEX or a DROP SEQUENCE run in a transaction \<open>t\<close> whose
  chain of ancestors is open. Then
  \<^item> \<^verbatim>\<open>fullCommit\<close> succeeds on \<open>t\<close> and returns the root, without touching the schema objects;
  \<^item> \<^verbatim>\<open>execute\<close> succeeds, with the command tag \<^verbatim>\<open>DROP\<close>;
  \<^item> \<open>t\<close> and all its ancestors are committed, their pending changes are the committed state
    of the root, and no handle of the chain accepts \<^verbatim>\<open>rollback\<close> or \<^verbatim>\<open>commit\<close> any more;
  \<^item> the transaction of the result descriptor is a fresh, open fork of the root, which sees
    those changes and can be rolled back, committed and forked;
  \<^item> the schema objects are those left by the drop applied, at the root, to the state that
    \<^verbatim>\<open>fullCommit\<close> returned.
\<close>

theorem drop_commits_then_forks:
  assumes "openChain w t"
  shows "(\<exists>w1 w'. fullCommit w t = Inr (w1, rootOf w t) \<and> registry w1 = registry w
            \<and> executeDropIndex self w t = Inr (w', noData (length (txns w)) ''DROP'')
            \<and> committedThenForked w t w' (noData (length (txns w)) ''DROP'')
            \<and> registry w' =
                (case di_idx self of
                   None \<Rightarrow> registry w
                 | Some idx \<Rightarrow>
                    registry (dropIndexOnTable w1 (rootOf w t) (ni_onTable idx) (ni_name idx))))
    \<and> (\<exists>w1 w'. fullCommit w t = Inr (w1, rootOf w t) \<and> registry w1 = registry w
            \<and> executeDropSequence sself w t = Inr (w', noData (length (txns w)) ''DROP'')
            \<and> committedThenForked w t w' (noData (length (txns w)) ''DROP'')
            \<and> registry w' =
                (case dsq_seq sself of
                   None \<Rightarrow> registry w
                 | Some sq \<Rightarrow> registry (dropSeq w1 (rootOf w t) sq)))"
  using executeDropIndex_outcome [OF assms, of self]
    executeDropSequence_outcome [OF assms, of sself]
  by blast

text \<open>
  \<^verbatim>\<open>drop index idx\<close> and \<^verbatim>\<open>drop sequence seq\<close> in the innermost of three nested transactions:
  the three pending changes end up committed in the root, none of the three handles can be
  rolled back, the object is gone, and the transaction returned is the new open child of the
  root.
\<close>

theorem drop_commits_then_forks_witness:
  "openChain exampleWorld 2
   \<and> (\<exists>w'. executeDropIndex \<lparr>di_idx = Some \<lparr>ni_onTable = ''test'', ni_name = ''idx''\<rparr>\<rparr>
              exampleWorld 2 = Inr (w', noData 3 ''DROP'')
          \<and> getTx w' 3 = Some \<lparr>tx_parent = Some 0, tx_pending = [], tx_state = Open\<rparr>
          \<and> pendingOf w' 0 = [''insert a'', ''insert b'', ''insert c'']
          \<and> rollback w' 0 = Inl terminalUse
          \<and> rollback w' 1 = Inl terminalUse
          \<and> rollback w' 2 = Inl terminalUse
          \<and> visible w' 3 = [''insert a'', ''insert b'', ''insert c'']
          \<and> registry w' ''idx'' = None
          \<and> registry w' ''seq'' = Some (SequenceObject ''seq''))
   \<and> (\<exists>w'. executeDropSequence \<lparr>dsq_seq = Some ''seq''\<rparr> exampleWorld 2
              = Inr (w', noData 3 ''DROP'')
          \<and> getTx w' 3 = Some \<lparr>tx_parent = Some 0, tx_pending = [], tx_state = Open\<rparr>
          \<and> pendingOf w' 0 = [''insert a'', ''insert b'', ''insert c'']
          \<and> rollback w' 1 = Inl terminalUse
          \<and> registry w' ''seq'' = None
          \<and> registry w' ''idx'' = Some (IndexObject ''test'' ''idx''))"
proof -
  note facts = exampleWorld_ancestors exampleWorld_rootOf exampleWorld_visible
    exampleWorld_length
  note inst = drop_commits_then_forks [OF exampleWorld_openChain,
      of "\<lparr>di_idx = Some \<lparr>ni_onTable = ''test'', ni_name = ''idx''\<rparr>\<rparr>"
         "\<lparr>dsq_seq = Some ''seq''\<rparr>"]
  from inst [THEN conjunct1] obtain w1 :: "string world" and w' where i:
    "registry w1 = registry exampleWorld"
    "executeDropIndex \<lparr>di_idx = Some \<lparr>ni_onTable = ''test'', ni_name = ''idx''\<rparr>\<rparr>
       exampleWorld 2 = Inr (w', noData 3 ''DROP'')"
    "committedThenForked exampleWorld 2 w' (noData 3 ''DROP'')"
    "registry w' = registry (dropIndexOnTable w1 0 ''test'' ''idx'')"
    by (auto simp: facts)
  from inst [THEN conjunct2] obtain v1 :: "string world" and v' where s:
    "registry v1 = registry exampleWorld"
    "executeDropSequence \<lparr>dsq_seq = Some ''seq''\<rparr> exampleWorld 2 = Inr (v', noData 3 ''DROP'')"
    "committedThenForked exampleWorld 2 v' (noData 3 ''DROP'')"
    "registry v' = registry (dropSeq v1 0 ''seq'')"
    by (auto simp: facts)
  have ri: "registry w' ''idx'' = None \<and> registry w' ''seq'' = Some (SequenceObject ''seq'')"
    using i(1,4) by (simp add: dropIndexOnTable_def exampleWorld_def)
  have rs: "registry v' ''seq'' = None \<and> registry v' ''idx'' = Some (IndexObject ''test'' ''idx'')"
    using s(1,4) by (simp add: dropSeq_def exampleWorld_def)
  have ci: "getTx w' 3 = Some \<lparr>tx_parent = Some 0, tx_pending = [], tx_state = Open\<rparr>
          \<and> pendingOf w' 0 = [''insert a'', ''insert b'', ''insert c'']
          \<and> rollback w' 0 = Inl terminalUse
          \<and> rollback w' 1 = Inl terminalUse
          \<and> rollback w' 2 = Inl terminalUse
          \<and> visible w' 3 = [''insert a'', ''insert b'', ''insert c'']"
    using i(3) by (simp add: committedThenForked_def facts noData_def)
  have cs: "getTx v' 3 = Some \<lparr>tx_parent = Some 0, tx_pending = [], tx_state = Open\<rparr>
          \<and> pendingOf v' 0 = [''insert a'', ''insert b'', ''insert c'']
          \<and> rollback v' 1 = Inl terminalUse"
    using s(3) by (simp add: committedThenForked_def facts noData_def)
  show ?thesis using exampleWorld_openChain i(2) s(2) ri rs ci cs by blast
qed

text \<open>
  Claim C10. Let a DROP INDEX or DROP SEQUENCE say \<^verbatim>\<open>IF EXISTS\<close> and name an object that does
  not exist. Planning keeps \<^verbatim>\<open>null\<close> for the object. When the statement is executed in a
  transaction whose chain of ancestors is open, \<^verbatim>\<open>execute\<close> still runs \<^verbatim>\<open>fullCommit\<close>: the
  transaction and all its ancestors are committed and can no longer be rolled back, their
  pending changes are the committed state of the root, and the result is a fresh open fork
  with the command tag \<^verbatim>\<open>DROP\<close>. The schema objects are left as they were.
\<close>

theorem drop_if_exists_of_missing_object:
  assumes "openChain w t" and "registry w (ds_name st) = None" and "ds_ifExists st"
  shows "newDropIndex (registry w) st = Inr \<lparr>di_idx = None\<rparr>
    \<and> newDropSequence (registry w) st = Inr \<lparr>dsq_seq = None\<rparr>
    \<and> (\<exists>w'. executeDropIndex \<lparr>di_idx = None\<rparr> w t
                = Inr (w', noData (length (txns w)) ''DROP'')
            \<and> committedThenForked w t w' (noData (length (txns w)) ''DROP'')
            \<and> registry w' = registry w)
    \<and> (\<exists>w'. executeDropSequence \<lparr>dsq_seq = None\<rparr> w t
                = Inr (w', noData (length (txns w)) ''DROP'')
            \<and> committedThenForked w t w' (noData (length (txns w)) ''DROP'')
            \<and> registry w' = registry w)"
proof -
  have p1: "newDropIndex (registry w) st = Inr \<lparr>di_idx = None\<rparr>"
    using assms(2,3) by (simp add: newDropIndex_def getObject_def asIndex_def)
  have p2: "newDropSequence (registry w) st = Inr \<lparr>dsq_seq = None\<rparr>"
    using assms(2,3) by (simp add: newDropSequence_def getObject_def asSeq_def)
  have e1: "\<exists>w'. executeDropIndex \<lparr>di_idx = None\<rparr> w t
                = Inr (w', noData (length (txns w)) ''DROP'')
            \<and> committedThenForked w t w' (noData (length (txns w)) ''DROP'')
            \<and> registry w' = registry w"
    using executeDropIndex_outcome [OF assms(1), of "\<lparr>di_idx = None\<rparr>"] by auto
  have e2: "\<exists>w'. executeDropSequence \<lparr>dsq_seq = None\<rparr> w t
                = Inr (w', noData (length (txns w)) ''DROP'')
            \<and> committedThenForked w t w' (noData (length (txns w)) ''DROP'')
            \<and> registry w' = registry w"
    using executeDropSequence_outcome [OF assms(1), of "\<lparr>dsq_seq = None\<rparr>"] by auto
  show ?thesis using p1 p2 e1 e2 by blast
qed

text \<open>
  \<^verbatim>\<open>drop index if exists missing\<close> in the innermost of three nested transactions: nothing is
  dropped, and the three pending changes are committed all the same.
\<close>

theorem drop_if_exists_of_missing_object_witness:
  "openChain exampleWorld 2
   \<and> registry exampleWorld ''missing'' = None
   \<and> newDropIndex (registry exampleWorld)
        \<lparr>ds_name = ''missing'', ds_ifExists = True, ds_concurrently = False\<rparr>
      = Inr \<lparr>di_idx = None\<rparr>
   \<and> (\<exists>w'. executeDropIndex \<lparr>di_idx = None\<rparr> exampleWorld 2 = Inr (w', noData 3 ''DROP'')
          \<and> getTx w' 3 = Some \<lparr>tx_parent = Some 0, tx_pending = [], tx_state = Open\<rparr>
          \<and> pendingOf w' 0 = [''insert a'', ''insert b'', ''insert c'']
          \<and> stateOf w' 2 = Some Committed
          \<and> rollback w' 0 = Inl terminalUse
          \<and> rollback w' 1 = Inl terminalUse
          \<and> rollback w' 2 = Inl terminalUse
          \<and> registry w' = registry exampleWorld)"
proof -
  note facts = exampleWorld_ancestors exampleWorld_rootOf exampleWorld_visible
    exampleWorld_length
  have h2: "registry exampleWorld
      (ds_name \<lparr>ds_name = ''missing'', ds_ifExists = True, ds_concurrently = False\<rparr>) = None"
    by (simp add: exampleWorld_def)
  have h3: "ds_ifExists \<lparr>ds_name = ''missing'', ds_ifExists = True, ds_concurrently = False\<rparr>"
    by simp
  note inst = drop_if_exists_of_missing_object [OF exampleWorld_openChain h2 h3]
  from inst [THEN conjunct2, THEN conjunct2, THEN conjunct1] obtain w' where i:
    "executeDropIndex \<lparr>di_idx = None\<rparr> exampleWorld 2 = Inr (w', noData 3 ''DROP'')"
    "committedThenForked exampleWorld 2 w' (noData 3 ''DROP'')"
    "registry w' = registry exampleWorld"
    by (auto simp: facts)
  have ci: "getTx w' 3 = Some \<lparr>tx_parent = Some 0, tx_pending = [], tx_state = Open\<rparr>
          \<and> pendingOf w' 0 = [''insert a'', ''insert b'', ''insert c'']
          \<and> stateOf w' 2 = Some Committed
          \<and> rollback w' 0 = Inl terminalUse
          \<and> rollback w' 1 = Inl terminalUse
          \<and> rollback w' 2 = Inl terminalUse"
    using i(2) by (simp add: committedThenForked_def facts noData_def)
  have "registry exampleWorld ''missing'' = None" using h2 by simp
  then show ?thesis using exampleWorld_openChain inst i(1,3) ci by blast
qed


end
